theory Spec2Isabelle
  imports Complex_Main "HOL-Library.Multiset" "HOL-Library.Char_ord" "HOL-Library.List_Lexorder"
begin

section \<open>Python strings used by the consumer\<close>

text \<open>
  Text is held as its UTF-8 bytes, a lone surrogate (which \<open>json.loads\<close> returns for the
  escape of a code point from D800 to DFFF) as the three bytes a code point of that range
  would take. What Python does to ASCII text is defined here. What it does to text with a
  character outside ASCII (lower-casing, stripping, counting code points) is taken from
  the library, see \<open>lib\<close> below.
\<close>

definition is_ascii :: "char \<Rightarrow> bool" where
  "is_ascii c = ((of_char c :: nat) < 128)"

fun encodable :: "string \<Rightarrow> bool" where
  \<comment> \<open>the text has a UTF-8 encoding: no surrogate, whose bytes are \<open>0xED\<close> and then one of
      \<open>0xA0\<close> to \<open>0xBF\<close>\<close>
  "encodable [] = True"
| "encodable [c] = True"
| "encodable (c # d # cs) =
     (\<not> (c = CHR 0xED \<and> 160 \<le> (of_char d :: nat) \<and> (of_char d :: nat) \<le> 191)
      \<and> encodable (d # cs))"

definition replace_char :: "char \<Rightarrow> char \<Rightarrow> string \<Rightarrow> string" where
  \<comment> \<open>\<open>s.replace(old, new)\<close> for ASCII characters \<open>old\<close> and \<open>new\<close>\<close>
  "replace_char old new s = map (\<lambda>c. if c = old then new else c) s"

definition is_upper :: "char \<Rightarrow> bool" where
  "is_upper c = (65 \<le> (of_char c :: nat) \<and> (of_char c :: nat) \<le> 90)"

definition lower_char :: "char \<Rightarrow> char" where
  "lower_char c = (if is_upper c then char_of ((of_char c :: nat) + 32) else c)"

definition is_space :: "char \<Rightarrow> bool" where
  \<comment> \<open>the ASCII characters \<open>str.strip()\<close> removes: TAB, LF, VT, FF, CR, FS, GS, RS, US, space\<close>
  "is_space c = (let n = (of_char c :: nat) in (9 \<le> n \<and> n \<le> 13) \<or> (28 \<le> n \<and> n \<le> 32))"

section \<open>Python values and exceptions\<close>

text \<open>
  What \<open>json.loads\<close> can return. A float is a real number, an infinity or NaN; the
  rounding of finite floats is outside the model. A dict is the list of its items, keys
  distinct.
\<close>

datatype pyfloat = Finite real | PosInf | NegInf | NaN

datatype pyval =
    PNone
  | PBool bool
  | PInt int
  | PFloat pyfloat
  | PStr string
  | PList "pyval list"
  | PDict "(string \<times> pyval) list"

datatype exn =
    TypeError
  | ValueError
  | AttributeError
  | OverflowError
  | RecursionError
  | JSONDecodeError
  | UnicodeEncodeError
  | OperationalError
  | IntegrityError
  | ProgrammingError
  | OSError

record summary_row =
  s_category :: string
  s_message_count :: nat
  s_avg_sentiment :: "pyfloat option"
  s_unique_authors :: nat
  s_latest_message :: "string option"

record master_row =
  m_message :: string
  m_author :: string
  m_timestamp :: string
  m_category :: string
  m_sentiment :: pyfloat
  m_keyword_mentioned :: "string option"
  m_message_length :: int

record category_row =
  c_message :: string
  c_author :: string
  c_timestamp :: string
  c_sentiment :: pyfloat
  c_keyword_mentioned :: "string option"
  c_message_length :: int

record stats_row =
  message_count :: int
  avg_sentiment :: "pyfloat option"

text \<open>
  Library behaviour the consumer relies on and the repository does not define:
  \<open>json.loads\<close> (which raises \<open>JSONDecodeError\<close> on text that is not JSON, and other
  exceptions on some inputs), \<open>float\<close> and \<open>int\<close> on a string (\<open>None\<close> is \<open>ValueError\<close>),
  the text SQLite stores for a number in a TEXT column, \<open>str.lower\<close>, \<open>str.strip\<close> and
  slicing on text that is not ASCII, and the value of SQLite's \<open>AVG\<close> over a list of floats
  that is not empty (\<open>None\<close> is NULL, the result when the average is not a number), and
  the exception \<open>sqlite3\<close> raises on a statement that does not parse.
\<close>

record lib =
  json_loads :: "string \<Rightarrow> exn + pyval"
  float_of_str :: "string \<Rightarrow> pyfloat option"
  int_of_str :: "string \<Rightarrow> int option"
  text_of_int :: "int \<Rightarrow> string"
  text_of_float :: "pyfloat \<Rightarrow> string"
  unicode_lower :: "string \<Rightarrow> string"
  unicode_strip :: "string \<Rightarrow> string"
  unicode_prefix :: "nat \<Rightarrow> string \<Rightarrow> string"
  engine_avg :: "pyfloat list \<Rightarrow> pyfloat option"
  engine_error :: "string \<Rightarrow> exn"

definition lower :: "lib \<Rightarrow> string \<Rightarrow> string" where
  \<comment> \<open>\<open>s.lower()\<close>\<close>
  "lower L s = (if list_all is_ascii s then map lower_char s else unicode_lower L s)"

definition strip :: "lib \<Rightarrow> string \<Rightarrow> string" where
  \<comment> \<open>\<open>s.strip()\<close>\<close>
  "strip L s =
     (if list_all is_ascii s then rev (dropWhile is_space (rev (dropWhile is_space s)))
      else unicode_strip L s)"

definition str_prefix :: "lib \<Rightarrow> nat \<Rightarrow> string \<Rightarrow> string" where
  \<comment> \<open>\<open>s[:k]\<close>, the first \<open>k\<close> code points\<close>
  "str_prefix L k s = (if list_all is_ascii s then take k s else unicode_prefix L k s)"

definition bindE :: "exn + 'a \<Rightarrow> ('a \<Rightarrow> exn + 'b) \<Rightarrow> exn + 'b" where
  \<comment> \<open>sequencing: the first exception raised ends the evaluation\<close>
  "bindE r f = (case r of Inl e \<Rightarrow> Inl e | Inr v \<Rightarrow> f v)"

definition item_or :: "(string \<times> pyval) list \<Rightarrow> string \<Rightarrow> pyval \<Rightarrow> pyval" where
  \<comment> \<open>the value under a key of a dict, the default when the key is absent\<close>
  "item_or items k dflt = (case map_of items k of None \<Rightarrow> dflt | Some v \<Rightarrow> v)"

definition dict_get :: "pyval \<Rightarrow> string \<Rightarrow> pyval \<Rightarrow> exn + pyval" where
  \<comment> \<open>\<open>message.get(key, default)\<close>; only a dict has \<open>get\<close>\<close>
  "dict_get d k dflt =
     (case d of
        PDict items \<Rightarrow> Inr (item_or items k dflt)
      | _ \<Rightarrow> Inl AttributeError)"

definition py_float :: "lib \<Rightarrow> pyval \<Rightarrow> exn + pyfloat" where
  \<comment> \<open>\<open>float(v)\<close>; an int that rounds to \<open>2 ^ 1024\<close> or beyond overflows\<close>
  "py_float L v =
     (case v of
        PNone \<Rightarrow> Inl TypeError
      | PBool b \<Rightarrow> Inr (Finite (if b then 1 else 0))
      | PInt i \<Rightarrow>
          if \<bar>i\<bar> \<ge> 2 ^ 1024 - 2 ^ 970 then Inl OverflowError else Inr (Finite (of_int i))
      | PFloat f \<Rightarrow> Inr f
      | PStr s \<Rightarrow> (case float_of_str L s of None \<Rightarrow> Inl ValueError | Some f \<Rightarrow> Inr f)
      | PList _ \<Rightarrow> Inl TypeError
      | PDict _ \<Rightarrow> Inl TypeError)"

definition py_int :: "lib \<Rightarrow> pyval \<Rightarrow> exn + int" where
  \<comment> \<open>\<open>int(v)\<close>; a finite float is truncated towards zero\<close>
  "py_int L v =
     (case v of
        PNone \<Rightarrow> Inl TypeError
      | PBool b \<Rightarrow> Inr (if b then 1 else 0)
      | PInt i \<Rightarrow> Inr i
      | PFloat f \<Rightarrow>
          (case f of
             Finite r \<Rightarrow> Inr (if r \<ge> 0 then \<lfloor>r\<rfloor> else \<lceil>r\<rceil>)
           | PosInf \<Rightarrow> Inl OverflowError
           | NegInf \<Rightarrow> Inl OverflowError
           | NaN \<Rightarrow> Inl ValueError)
      | PStr s \<Rightarrow> (case int_of_str L s of None \<Rightarrow> Inl ValueError | Some i \<Rightarrow> Inr i)
      | PList _ \<Rightarrow> Inl TypeError
      | PDict _ \<Rightarrow> Inl TypeError)"

definition slice50 :: "lib \<Rightarrow> pyval \<Rightarrow> exn + pyval" where
  \<comment> \<open>\<open>v[:50]\<close>: strings and lists can be sliced, nothing else\<close>
  "slice50 L v =
     (case v of
        PStr s \<Rightarrow> Inr (PStr (str_prefix L 50 s))
      | PList xs \<Rightarrow> Inr (PList (take 50 xs))
      | _ \<Rightarrow> Inl TypeError)"

section \<open>Category router\<close>

definition safe_category :: "lib \<Rightarrow> string \<Rightarrow> string" where
  \<comment> \<open>\<open>category.replace(' ', '_').replace('-', '_').lower()\<close>\<close>
  "safe_category L cat =
     lower L (replace_char CHR ''-'' CHR ''_'' (replace_char CHR '' '' CHR ''_'' cat))"

definition table_name :: "lib \<Rightarrow> string \<Rightarrow> string" where
  \<comment> \<open>\<open>f"category_{safe_category}"\<close>\<close>
  "table_name L cat = ''category_'' @ safe_category L cat"

section \<open>Record normalizer\<close>

text \<open>
  The dict \<open>process_message\<close> builds always has the same seven keys, \<open>sentiment\<close> a float and
  \<open>message_length\<close> an int: a record with these fields.
\<close>

record processed =
  message :: pyval
  author :: pyval
  timestamp :: pyval
  category :: pyval
  sentiment :: pyfloat
  keyword_mentioned :: pyval
  message_length :: int

datatype log_event =
    Created_table string
  | Inserted string
  | Processed pyval pyval
  | Error_processing exn
  | Called nat nat
  | Reading nat
  | Analytics "summary_row list"
  | Failed_to_parse string
  | File_not_found
  | Error_reading exn
  | Final_analytics "summary_row list"
  | Error_displaying exn

definition process_message_try :: "lib \<Rightarrow> pyval \<Rightarrow> exn + (processed \<times> log_event)" where
  \<comment> \<open>the body of the \<open>try\<close>: the dict literal, evaluated key by key, then the log line\<close>
  "process_message_try L msg =
     bindE (dict_get msg ''message'' PNone) (\<lambda>m.
     bindE (dict_get msg ''author'' PNone) (\<lambda>a.
     bindE (dict_get msg ''timestamp'' PNone) (\<lambda>t.
     bindE (dict_get msg ''category'' (PStr ''other'')) (\<lambda>c.
     bindE (bindE (dict_get msg ''sentiment'' (PFloat (Finite 0))) (py_float L)) (\<lambda>s.
     bindE (dict_get msg ''keyword_mentioned'' (PStr [])) (\<lambda>k.
     bindE (bindE (dict_get msg ''message_length'' (PInt 0)) (py_int L)) (\<lambda>n.
     bindE (slice50 L m) (\<lambda>prefix.
       Inr (\<lparr>message = m, author = a, timestamp = t, category = c, sentiment = s,
              keyword_mentioned = k, message_length = n\<rparr>,
            Processed c prefix)))))))))"

definition process_message :: "lib \<Rightarrow> pyval \<Rightarrow> processed option \<times> log_event" where
  \<comment> \<open>\<open>except Exception\<close>: log the error, return \<open>None\<close>\<close>
  "process_message L msg =
     (case process_message_try L msg of
        Inl e \<Rightarrow> (None, Error_processing e)
      | Inr (p, ev) \<Rightarrow> (Some p, ev))"

section \<open>Storage engine\<close>

text \<open>
  The SQLite database: the master table, the category tables by name, and the statistics
  table by its primary key. Rows hold the columns the consumer writes; \<open>id\<close>, \<open>created_at\<close>
  and \<open>last_updated\<close> are filled in by the engine and read by no query of the consumer.
\<close>

record store =
  all_messages :: "master_row list"
  category_tables :: "string \<rightharpoonup> category_row list"
  category_stats :: "string \<rightharpoonup> stats_row"

record state =
  db :: store
  logged :: "log_event list"
  slept :: "nat list"

definition info :: "log_event \<Rightarrow> state \<Rightarrow> state" where
  "info ev st = st\<lparr>logged := logged st @ [ev]\<rparr>"

definition init_db :: store where
  \<comment> \<open>\<open>CREATE TABLE IF NOT EXISTS\<close> on the file \<open>main\<close> has just deleted\<close>
  "init_db = \<lparr>all_messages = [], category_tables = Map.empty, category_stats = Map.empty\<rparr>"

datatype sqlval = SNull | SInt int | SReal pyfloat | SText string

definition bind_param :: "pyval \<Rightarrow> exn + sqlval" where
  \<comment> \<open>how \<open>sqlite3\<close> binds a Python value to a \<open>?\<close>; a NaN is bound as NULL, a string is
      encoded\<close>
  "bind_param v =
     (case v of
        PNone \<Rightarrow> Inr SNull
      | PBool b \<Rightarrow> Inr (SInt (if b then 1 else 0))
      | PInt i \<Rightarrow> if - (2 ^ 63) \<le> i \<and> i < 2 ^ 63 then Inr (SInt i) else Inl OverflowError
      | PFloat f \<Rightarrow> Inr (if f = NaN then SNull else SReal f)
      | PStr s \<Rightarrow> if encodable s then Inr (SText s) else Inl UnicodeEncodeError
      | PList _ \<Rightarrow> Inl ProgrammingError
      | PDict _ \<Rightarrow> Inl ProgrammingError)"

definition text_column :: "lib \<Rightarrow> sqlval \<Rightarrow> string option" where
  \<comment> \<open>a TEXT column stores a number as its text; \<open>None\<close> is NULL\<close>
  "text_column L v =
     (case v of
        SNull \<Rightarrow> None
      | SInt i \<Rightarrow> Some (text_of_int L i)
      | SReal f \<Rightarrow> Some (text_of_float L f)
      | SText s \<Rightarrow> Some s)"

definition float_column :: "pyfloat \<Rightarrow> pyfloat option" where
  \<comment> \<open>the float bound to the REAL column; \<open>None\<close> is NULL\<close>
  "float_column f = (if f = NaN then None else Some f)"

definition not_null :: "'a option \<Rightarrow> exn + 'a" where
  "not_null v = (case v of None \<Rightarrow> Inl IntegrityError | Some x \<Rightarrow> Inr x)"

definition is_ident_char :: "char \<Rightarrow> bool" where
  \<comment> \<open>the bytes SQLite's tokenizer reads as part of an identifier\<close>
  "is_ident_char c =
     (let n = (of_char c :: nat) in
        (48 \<le> n \<and> n \<le> 57) \<or> (65 \<le> n \<and> n \<le> 90) \<or> (97 \<le> n \<and> n \<le> 122)
        \<or> n = 95 \<or> n = 36 \<or> 128 \<le> n)"

definition create_category_table :: "lib \<Rightarrow> pyval \<Rightarrow> state \<Rightarrow> exn option \<times> state" where
  \<comment> \<open>only a string has \<open>replace\<close>. The name is pasted into the SQL text, which is
      encoded, and the two statements parse as written only when the name is one
      identifier. The name \<open>category_stats\<close> is the statistics table, which exists and has
      no column \<open>timestamp\<close>: \<open>CREATE TABLE IF NOT EXISTS\<close> leaves it alone and
      \<open>CREATE INDEX\<close> fails. After a failure the process ends; a table that the first
      statement may have created before the second failed is empty and is not modelled\<close>
  "create_category_table L cat st =
     (case cat of
        PStr c \<Rightarrow>
          if \<not> encodable (safe_category L c) then (Some UnicodeEncodeError, st)
          else if \<not> list_all is_ident_char (safe_category L c)
          then (Some (engine_error L (safe_category L c)), st)
          else if table_name L c = ''category_stats'' then (Some OperationalError, st)
          else
            (None,
             info (Created_table (table_name L c))
               (st\<lparr>db := (db st)\<lparr>category_tables :=
                  (case category_tables (db st) (table_name L c) of
                     None \<Rightarrow> (category_tables (db st))(table_name L c \<mapsto> [])
                   | Some _ \<Rightarrow> category_tables (db st))\<rparr>\<rparr>))
      | _ \<Rightarrow> (Some AttributeError, st))"

definition insert_master :: "lib \<Rightarrow> processed \<Rightarrow> store \<Rightarrow> exn + store" where
  \<comment> \<open>\<open>INSERT INTO all_messages\<close>: bind the seven parameters in order, then the NOT NULL
      constraints of the columns\<close>
  "insert_master L md d =
     bindE (bind_param (message md)) (\<lambda>m.
     bindE (bind_param (author md)) (\<lambda>a.
     bindE (bind_param (timestamp md)) (\<lambda>t.
     bindE (bind_param (category md)) (\<lambda>c.
     bindE (bind_param (PFloat (sentiment md))) (\<lambda>s.
     bindE (bind_param (keyword_mentioned md)) (\<lambda>k.
     bindE (bind_param (PInt (message_length md))) (\<lambda>n.
     bindE (not_null (text_column L m)) (\<lambda>m'.
     bindE (not_null (text_column L a)) (\<lambda>a'.
     bindE (not_null (text_column L t)) (\<lambda>t'.
     bindE (not_null (text_column L c)) (\<lambda>c'.
     bindE (not_null (float_column (sentiment md))) (\<lambda>s'.
       Inr (d\<lparr>all_messages := all_messages d @
              [\<lparr>m_message = m', m_author = a', m_timestamp = t', m_category = c',
                m_sentiment = s', m_keyword_mentioned = text_column L k,
                m_message_length = message_length md\<rparr>]\<rparr>)))))))))))))"

definition insert_category :: "lib \<Rightarrow> string \<Rightarrow> processed \<Rightarrow> store \<Rightarrow> exn + store" where
  \<comment> \<open>\<open>INSERT INTO {table_name}\<close>: the statement is prepared against the table, then bound,
      then checked\<close>
  "insert_category L name md d =
     bindE (case category_tables d name of None \<Rightarrow> Inl OperationalError | Some rows \<Rightarrow> Inr rows)
       (\<lambda>rows.
     bindE (bind_param (message md)) (\<lambda>m.
     bindE (bind_param (author md)) (\<lambda>a.
     bindE (bind_param (timestamp md)) (\<lambda>t.
     bindE (bind_param (PFloat (sentiment md))) (\<lambda>s.
     bindE (bind_param (keyword_mentioned md)) (\<lambda>k.
     bindE (bind_param (PInt (message_length md))) (\<lambda>n.
     bindE (not_null (text_column L m)) (\<lambda>m'.
     bindE (not_null (text_column L a)) (\<lambda>a'.
     bindE (not_null (text_column L t)) (\<lambda>t'.
     bindE (not_null (float_column (sentiment md))) (\<lambda>s'.
       Inr (d\<lparr>category_tables := (category_tables d)(name \<mapsto> rows @
              [\<lparr>c_message = m', c_author = a', c_timestamp = t',
                c_sentiment = s', c_keyword_mentioned = text_column L k,
                c_message_length = message_length md\<rparr>])\<rparr>))))))))))))"

definition sql_avg :: "lib \<Rightarrow> pyfloat list \<Rightarrow> pyfloat option" where
  \<comment> \<open>\<open>AVG\<close>: NULL over no rows, the engine's floating-point average otherwise\<close>
  "sql_avg L xs = (if xs = [] then None else engine_avg L xs)"

definition update_stats :: "lib \<Rightarrow> string \<Rightarrow> store \<Rightarrow> store" where
  \<comment> \<open>\<open>INSERT OR REPLACE INTO category_stats\<close>: the stored count plus one, the average
      recomputed over the master table\<close>
  "update_stats L c d =
     d\<lparr>category_stats := (category_stats d)(c \<mapsto>
        \<lparr>message_count =
           (case category_stats d c of None \<Rightarrow> 0 | Some r \<Rightarrow> message_count r) + 1,
         avg_sentiment =
           sql_avg L (map m_sentiment (filter (\<lambda>r. m_category r = c) (all_messages d)))\<rparr>)\<rparr>"

definition insert_transaction :: "lib \<Rightarrow> string \<Rightarrow> processed \<Rightarrow> store \<Rightarrow> exn + store" where
  \<comment> \<open>the three statements inside \<open>with sqlite3.connect(db_path) as conn\<close>\<close>
  "insert_transaction L c md d =
     bindE (insert_master L md d) (\<lambda>d1.
     bindE (insert_category L (table_name L c) md d1) (\<lambda>d2.
       Inr (update_stats L c d2)))"

definition insert_message :: "lib \<Rightarrow> processed \<Rightarrow> state \<Rightarrow> exn option \<times> state" where
  \<comment> \<open>the connection commits when the block ends and rolls back when it raises\<close>
  "insert_message L md st =
     (case create_category_table L (category md) st of
        (Some e, st1) \<Rightarrow> (Some e, st1)
      | (None, st1) \<Rightarrow>
          (case category md of
             PStr c \<Rightarrow>
               (case insert_transaction L c md (db st1) of
                  Inl e \<Rightarrow> (Some e, st1)
                | Inr d \<Rightarrow> (None, info (Inserted (table_name L c)) (st1\<lparr>db := d\<rparr>)))
           | _ \<Rightarrow> (Some AttributeError, st1)))"

definition sql_max :: "string list \<Rightarrow> string option" where
  \<comment> \<open>\<open>MAX\<close> over text: the greatest in byte order, NULL over no rows\<close>
  "sql_max xs = (case xs of [] \<Rightarrow> None | x # ys \<Rightarrow> Some (fold max ys x))"

definition summary :: "lib \<Rightarrow> master_row list \<Rightarrow> string \<Rightarrow> summary_row" where
  \<comment> \<open>the select list of the analytics query over the group of one category\<close>
  "summary L ms c =
     (let g = filter (\<lambda>r. m_category r = c) ms in
        \<lparr>s_category = c,
         s_message_count = length g,
         s_avg_sentiment = sql_avg L (map m_sentiment g),
         s_unique_authors = length (remdups (map m_author g)),
         s_latest_message = sql_max (map m_timestamp g)\<rparr>)"

definition category_groups :: "lib \<Rightarrow> master_row list \<Rightarrow> summary_row list" where
  \<comment> \<open>\<open>GROUP BY category\<close>: one row for each category of the master table. The engine
      forms the groups along the index on \<open>category\<close>, in ascending byte order\<close>
  "category_groups L ms = map (summary L ms) (sort (remdups (map m_category ms)))"

definition get_category_analytics :: "lib \<Rightarrow> master_row list \<Rightarrow> summary_row list" where
  \<comment> \<open>\<open>ORDER BY message_count DESC\<close>: the engine's sorter keeps the order of the groups
      among rows of equal count\<close>
  "get_category_analytics L ms =
     sort_key (\<lambda>r. - int (s_message_count r)) (category_groups L ms)"

section \<open>Tailing reader and ingestion loop\<close>

datatype source_file = Missing | Unreadable | Content string

fun iter_lines :: "string \<Rightarrow> string list" where
  \<comment> \<open>\<open>for line in file\<close> in text mode: a line ends with LF, CR or CR LF, handed over as
      LF; what follows the last terminator is a line too\<close>
  "iter_lines [] = []"
| "iter_lines (c # cs) =
     (if c = CHR 0x0A then [CHR 0x0A] # iter_lines cs
      else if c = CHR 0x0D then
        (case cs of
           [] \<Rightarrow> [[CHR 0x0A]]
         | d # ds \<Rightarrow> if d = CHR 0x0A then [CHR 0x0A] # iter_lines ds
                     else [CHR 0x0A] # iter_lines cs)
      else (case iter_lines cs of [] \<Rightarrow> [[c]] | l # ls \<Rightarrow> (c # l) # ls))"

definition log_analytics :: "summary_row list \<Rightarrow> state \<Rightarrow> exn option \<times> state" where
  \<comment> \<open>the report: a header, then one line for each row. \<open>{avg_sent:.2f}\<close> raises
      \<open>TypeError\<close> on a row whose average is \<open>None\<close>; the rows before it have been logged\<close>
  "log_analytics rows st =
     (if list_all (\<lambda>r. s_avg_sentiment r \<noteq> None) rows then (None, info (Analytics rows) st)
      else (Some TypeError,
            info (Analytics (takeWhile (\<lambda>r. s_avg_sentiment r \<noteq> None) rows)) st))"

definition process_line :: "lib \<Rightarrow> string \<Rightarrow> state \<Rightarrow> nat \<Rightarrow> exn option \<times> state \<times> nat" where
  \<comment> \<open>the body of \<open>for line in file\<close>; \<open>n\<close> is \<open>messages_processed\<close>. Only
      \<open>JSONDecodeError\<close> is caught here\<close>
  "process_line L line st n =
     (if strip L line = [] then (None, st, n)
      else
        (case json_loads L (strip L line) of
           Inl e \<Rightarrow>
             if e = JSONDecodeError
             then (None, info (Failed_to_parse (str_prefix L 50 (strip L line))) st, n)
             else (Some e, st, n)
         | Inr msg \<Rightarrow>
             (case process_message L msg of
                (None, ev) \<Rightarrow> (None, info ev st, n)
              | (Some p, ev) \<Rightarrow>
                  (case insert_message L p (info ev st) of
                     (Some e, st1) \<Rightarrow> (Some e, st1, n)
                   | (None, st1) \<Rightarrow>
                       if (n + 1) mod 10 = 0
                       then
                         (case log_analytics
                                 (get_category_analytics L (all_messages (db st1))) st1 of
                            (r, st2) \<Rightarrow> (r, st2, n + 1))
                       else (None, st1, n + 1)))))"

fun process_lines :: "lib \<Rightarrow> string list \<Rightarrow> state \<Rightarrow> nat \<Rightarrow> exn option \<times> state \<times> nat" where
  "process_lines L [] st n = (None, st, n)"
| "process_lines L (l # ls) st n =
     (case process_line L l st n of
        (Some e, st1, n1) \<Rightarrow> (Some e, st1, n1)
      | (None, st1, n1) \<Rightarrow> process_lines L ls st1 n1)"

datatype outcome = Returned nat | Exited nat

definition consume_pass ::
  "lib \<Rightarrow> source_file \<Rightarrow> nat \<Rightarrow> state \<Rightarrow> nat \<Rightarrow> outcome option \<times> state \<times> nat" where
  \<comment> \<open>one turn of \<open>while True\<close>: \<open>Some\<close> when the turn leaves the function by \<open>return\<close> or
      \<open>sys.exit\<close>, \<open>None\<close> when control reaches the \<open>time.sleep\<close> below the \<open>try\<close>\<close>
  "consume_pass L f last_position st n =
     (let st1 = info (Reading last_position) st in
        case f of
          Missing \<Rightarrow> (Some (Exited 10), info File_not_found st1, n)
        | Unreadable \<Rightarrow> (Some (Exited 11), info (Error_reading OSError) st1, n)
        | Content s \<Rightarrow>
            (case process_lines L (iter_lines (drop last_position s)) st1 n of
               (Some e, st2, n2) \<Rightarrow> (Some (Exited 11), info (Error_reading e) st2, n2)
             | (None, st2, n2) \<Rightarrow> (Some (Returned (max last_position (length s))), st2, n2)))"

partial_function (option) consume_loop ::
  "lib \<Rightarrow> source_file \<Rightarrow> nat \<Rightarrow> nat \<Rightarrow> state \<Rightarrow> nat \<Rightarrow> (outcome \<times> state) option" where
  "consume_loop L f interval_secs last_position st n =
     (case consume_pass L f last_position st n of
        (Some r, st1, n1) \<Rightarrow> Some (r, st1)
      | (None, st1, n1) \<Rightarrow>
          consume_loop L f interval_secs last_position
            (st1\<lparr>slept := slept st1 @ [interval_secs]\<rparr>) n1)"

definition consume_messages_from_file ::
  "lib \<Rightarrow> source_file \<Rightarrow> nat \<Rightarrow> nat \<Rightarrow> state \<Rightarrow> (outcome \<times> state) option" where
  \<comment> \<open>\<open>messages_processed = 0\<close> on every call\<close>
  "consume_messages_from_file L f interval_secs last_position st =
     consume_loop L f interval_secs last_position (info (Called interval_secs last_position) st) 0"

definition final_analytics :: "lib \<Rightarrow> state \<Rightarrow> state" where
  \<comment> \<open>the report at the interrupt, inside its own \<open>try\<close>: an exception is logged\<close>
  "final_analytics L st =
     (let rows = get_category_analytics L (all_messages (db st)) in
        if list_all (\<lambda>r. s_avg_sentiment r \<noteq> None) rows then info (Final_analytics rows) st
        else info (Error_displaying TypeError)
               (info (Final_analytics (takeWhile (\<lambda>r. s_avg_sentiment r \<noteq> None) rows)) st))"

fun main_loop ::
  "lib \<Rightarrow> nat \<Rightarrow> source_file list \<Rightarrow> nat \<Rightarrow> state \<Rightarrow> (nat option \<times> state) option" where
  \<comment> \<open>step 4 of \<open>main\<close>: one file snapshot per poll; the list ends at the interrupt. The
      result is the exit code, if the process exited\<close>
  "main_loop L interval_secs [] last_position st = Some (None, final_analytics L st)"
| "main_loop L interval_secs (f # fs) last_position st =
     (case consume_messages_from_file L f interval_secs last_position st of
        None \<Rightarrow> None
      | Some (Returned p, st1) \<Rightarrow>
          main_loop L interval_secs fs p (st1\<lparr>slept := slept st1 @ [interval_secs]\<rparr>)
      | Some (Exited code, st1) \<Rightarrow> Some (Some code, st1))"

definition main :: "lib \<Rightarrow> nat \<Rightarrow> source_file list \<Rightarrow> (nat option \<times> state) option" where
  \<comment> \<open>steps 2 to 4: the database file deleted and initialised, reading from position 0\<close>
  "main L interval_secs fs =
     main_loop L interval_secs fs 0 \<lparr>db = init_db, logged = [], slept = []\<rparr>"

section \<open>Observations and example inputs\<close>

definition table_rows :: "store \<Rightarrow> string \<Rightarrow> category_row list" where
  \<comment> \<open>the rows of a category table; a table that does not exist has none\<close>
  "table_rows d name = (case category_tables d name of None \<Rightarrow> [] | Some rows \<Rightarrow> rows)"

definition same_fields :: "master_row \<Rightarrow> category_row \<Rightarrow> bool" where
  "same_fields m r =
     (m_message m = c_message r \<and> m_author m = c_author r \<and> m_timestamp m = c_timestamp r
      \<and> m_sentiment m = c_sentiment r \<and> m_keyword_mentioned m = c_keyword_mentioned r
      \<and> m_message_length m = c_message_length r)"

definition column_text :: "lib \<Rightarrow> pyval \<Rightarrow> string option" where
  \<comment> \<open>what a TEXT column holds for a Python value; \<open>None\<close> when the value is stored as
      NULL or cannot be bound\<close>
  "column_text L v = (case bind_param v of Inl e \<Rightarrow> None | Inr x \<Rightarrow> text_column L x)"

definition can_bind :: "pyval \<Rightarrow> bool" where
  "can_bind v = (case bind_param v of Inl e \<Rightarrow> False | Inr x \<Rightarrow> True)"

definition row_of :: "lib \<Rightarrow> processed \<Rightarrow> master_row \<Rightarrow> bool" where
  \<comment> \<open>the master row carries the values of the record\<close>
  "row_of L md m =
     (column_text L (message md) = Some (m_message m)
      \<and> column_text L (author md) = Some (m_author m)
      \<and> column_text L (timestamp md) = Some (m_timestamp m)
      \<and> category md = PStr (m_category m)
      \<and> sentiment md = m_sentiment m
      \<and> (can_bind (keyword_mentioned md)
           \<and> column_text L (keyword_mentioned md) = m_keyword_mentioned m)
      \<and> message_length md = m_message_length m)"

definition storable :: "lib \<Rightarrow> processed \<Rightarrow> bool" where
  \<comment> \<open>the record is one the store accepts: the category is a string whose table name is
      one identifier and not the statistics table, every value can be bound, and no
      NOT NULL column gets NULL\<close>
  "storable L md =
     ((case category md of
         PStr c \<Rightarrow> encodable c \<and> encodable (safe_category L c)
                   \<and> list_all is_ident_char (safe_category L c)
                   \<and> table_name L c \<noteq> ''category_stats''
       | _ \<Rightarrow> False)
      \<and> column_text L (message md) \<noteq> None
      \<and> column_text L (author md) \<noteq> None
      \<and> column_text L (timestamp md) \<noteq> None
      \<and> can_bind (keyword_mentioned md)
      \<and> sentiment md \<noteq> NaN
      \<and> - (2 ^ 63) \<le> message_length md \<and> message_length md < 2 ^ 63)"



definition is_analytics :: "log_event \<Rightarrow> bool" where
  \<comment> \<open>the periodic report of the line loop\<close>
  "is_analytics ev = (case ev of Analytics _ \<Rightarrow> True | _ \<Rightarrow> False)"

definition reports :: "state \<Rightarrow> nat" where
  \<comment> \<open>how many periodic reports the log holds\<close>
  "reports st = length (filter is_analytics (logged st))"

definition is_finite :: "pyfloat \<Rightarrow> bool" where
  "is_finite f = (case f of Finite r \<Rightarrow> True | _ \<Rightarrow> False)"

definition finite_value :: "pyfloat \<Rightarrow> real" where
  "finite_value f = (case f of Finite r \<Rightarrow> r | _ \<Rightarrow> 0)"

definition ex_avg :: "pyfloat list \<Rightarrow> pyfloat option" where
  \<comment> \<open>an average for the examples: the floating-point result on infinities and NaN, the
      exact mean on finite values\<close>
  "ex_avg xs =
     (if NaN \<in> set xs \<or> (PosInf \<in> set xs \<and> NegInf \<in> set xs) then None
      else if PosInf \<in> set xs then Some PosInf
      else if NegInf \<in> set xs then Some NegInf
      else Some (Finite (sum_list (map finite_value xs) / real (length xs))))"

definition ex_line_valid :: string where
  \<open>ex_line_valid = ''{"message": "hi", "author": "Al", "timestamp": "t1"}''\<close>

definition ex_items_valid :: "(string \<times> pyval) list" where
  "ex_items_valid = [(''message'', PStr ''hi''), (''author'', PStr ''Al''), (''timestamp'', PStr ''t1'')]"

definition ex_line_no_author :: string where
  \<open>ex_line_no_author = ''{"message": "hi", "timestamp": "t1"}''\<close>

definition ex_items_no_author :: "(string \<times> pyval) list" where
  "ex_items_no_author = [(''message'', PStr ''hi''), (''timestamp'', PStr ''t1'')]"

definition ex_line_no_message :: string where
  \<open>ex_line_no_message = ''{"author": "Al", "timestamp": "t1"}''\<close>

definition ex_items_no_message :: "(string \<times> pyval) list" where
  "ex_items_no_message = [(''author'', PStr ''Al''), (''timestamp'', PStr ''t1'')]"

definition ex_line_meme :: string where
  \<open>ex_line_meme = ''{"message": "hi", "author": "Al", "timestamp": "t1", "category": "Meme!"}''\<close>

definition ex_items_meme :: "(string \<times> pyval) list" where
  "ex_items_meme =
     [(''message'', PStr ''hi''), (''author'', PStr ''Al''), (''timestamp'', PStr ''t1''),
      (''category'', PStr ''Meme!'')]"

definition ex_line_malformed :: string where
  \<open>ex_line_malformed = ''{"message": ''\<close>

definition ex_lib :: lib where
  \<comment> \<open>a library for the examples: it decodes the four well-formed example lines\<close>
  "ex_lib =
     \<lparr>json_loads = (\<lambda>s. if s = ex_line_valid then Inr (PDict ex_items_valid)
                         else if s = ex_line_no_author then Inr (PDict ex_items_no_author)
                         else if s = ex_line_no_message then Inr (PDict ex_items_no_message)
                         else if s = ex_line_meme then Inr (PDict ex_items_meme)
                         else Inl JSONDecodeError),
      float_of_str = (\<lambda>_. None),
      int_of_str = (\<lambda>_. None),
      text_of_int = (\<lambda>_. []),
      text_of_float = (\<lambda>_. []),
      unicode_lower = (\<lambda>s. s),
      unicode_strip = (\<lambda>s. s),
      unicode_prefix = take,
      engine_avg = ex_avg,
      engine_error = (\<lambda>_. OperationalError)\<rparr>"

definition ex_state :: state where
  "ex_state = \<lparr>db = init_db, logged = [], slept = []\<rparr>"

definition ex_processed :: processed where
  "ex_processed =
     \<lparr>message = PStr ''hi'', author = PStr ''Al'', timestamp = PStr ''t1'',
      category = PStr ''other'', sentiment = Finite 0, keyword_mentioned = PStr [],
      message_length = 0\<rparr>"

definition ex_processed_no_author :: processed where
  "ex_processed_no_author =
     \<lparr>message = PStr ''hi'', author = PNone, timestamp = PStr ''t1'',
      category = PStr ''other'', sentiment = Finite 0, keyword_mentioned = PStr [],
      message_length = 0\<rparr>"





definition ex_lines :: "nat \<Rightarrow> string" where
  \<comment> \<open>a file of \<open>k\<close> copies of the valid example line, each terminated\<close>
  "ex_lines k = concat (replicate k (ex_line_valid @ [CHR 0x0A]))"

definition ex_row :: "string \<Rightarrow> string \<Rightarrow> string \<Rightarrow> pyfloat \<Rightarrow> master_row" where
  "ex_row c a t s =
     \<lparr>m_message = ''x'', m_author = a, m_timestamp = t, m_category = c, m_sentiment = s,
      m_keyword_mentioned = Some [], m_message_length = 1\<rparr>"

definition ex_master_scenario :: "master_row list" where
  "ex_master_scenario =
     [ex_row ''news'' ''Al'' ''t3'' (Finite 0.2), ex_row ''humor'' ''Al'' ''t1'' (Finite 0.8),
      ex_row ''humor'' ''Bo'' ''t2'' (Finite 0.6), ex_row ''art'' ''Bo'' ''t4'' (Finite 0.5)]"

definition ex_summary_scenario :: "summary_row list" where
  "ex_summary_scenario =
     [\<lparr>s_category = ''humor'', s_message_count = 2, s_avg_sentiment = Some (Finite 0.7),
       s_unique_authors = 2, s_latest_message = Some ''t2''\<rparr>,
      \<lparr>s_category = ''art'', s_message_count = 1, s_avg_sentiment = Some (Finite 0.5),
       s_unique_authors = 1, s_latest_message = Some ''t4''\<rparr>,
      \<lparr>s_category = ''news'', s_message_count = 1, s_avg_sentiment = Some (Finite 0.2),
       s_unique_authors = 1, s_latest_message = Some ''t3''\<rparr>]"


section \<open>Category router: the partition identifier\<close>

lemma replace_both:
  "replace_char CHR ''-'' CHR ''_'' (replace_char CHR '' '' CHR ''_'' s) =
     map (\<lambda>c. if c = CHR '' '' \<or> c = CHR ''-'' then CHR ''_'' else c) s"
  by (simp add: replace_char_def)

lemma replace_both_ascii:
  "list_all is_ascii s \<Longrightarrow>
   list_all is_ascii (map (\<lambda>c. if c = CHR '' '' \<or> c = CHR ''-'' then CHR ''_'' else c) s)"
  by (induction s) (simp_all add: is_ascii_def)

lemma safe_category_ascii:
  assumes "list_all is_ascii s"
  shows "safe_category L s =
     map (\<lambda>c. if c = CHR '' '' \<or> c = CHR ''-'' then CHR ''_''
              else if is_upper c then char_of ((of_char c :: nat) + 32) else c) s"
proof -
  have "safe_category L s =
      map lower_char (map (\<lambda>c. if c = CHR '' '' \<or> c = CHR ''-'' then CHR ''_'' else c) s)"
    unfolding safe_category_def replace_both
    using replace_both_ascii[OF assms] by (simp add: lower_def)
  also have "\<dots> = map (\<lambda>c. if c = CHR '' '' \<or> c = CHR ''-'' then CHR ''_''
              else if is_upper c then char_of ((of_char c :: nat) + 32) else c) s"
    by (auto simp: lower_char_def is_upper_def)
  finally show ?thesis .
qed

lemma safe_category_examples:
  "safe_category L ''Pop Culture'' = ''pop_culture''"
  "safe_category L ''E-Sports'' = ''e_sports''"
  "safe_category L ''Meme!'' = ''meme!''"
  "safe_category L ''other'' = ''other''"
  "safe_category L ''humor'' = ''humor''"
  "safe_category L ''news'' = ''news''"
  "safe_category L ''x'' = ''x''"
proof -
  have a: "list_all is_ascii ''Pop Culture''" "list_all is_ascii ''E-Sports''"
    "list_all is_ascii ''Meme!''" "list_all is_ascii ''other''" "list_all is_ascii ''humor''"
    "list_all is_ascii ''news''" "list_all is_ascii ''x''"
    by code_simp+
  have m: "map (\<lambda>c. if c = CHR '' '' \<or> c = CHR ''-'' then CHR ''_''
              else if is_upper c then char_of ((of_char c :: nat) + 32) else c) ''Pop Culture''
           = ''pop_culture''"
    "map (\<lambda>c. if c = CHR '' '' \<or> c = CHR ''-'' then CHR ''_''
              else if is_upper c then char_of ((of_char c :: nat) + 32) else c) ''E-Sports''
           = ''e_sports''"
    "map (\<lambda>c. if c = CHR '' '' \<or> c = CHR ''-'' then CHR ''_''
              else if is_upper c then char_of ((of_char c :: nat) + 32) else c) ''Meme!''
           = ''meme!''"
    "map (\<lambda>c. if c = CHR '' '' \<or> c = CHR ''-'' then CHR ''_''
              else if is_upper c then char_of ((of_char c :: nat) + 32) else c) ''other''
           = ''other''"
    "map (\<lambda>c. if c = CHR '' '' \<or> c = CHR ''-'' then CHR ''_''
              else if is_upper c then char_of ((of_char c :: nat) + 32) else c) ''humor''
           = ''humor''"
    "map (\<lambda>c. if c = CHR '' '' \<or> c = CHR ''-'' then CHR ''_''
              else if is_upper c then char_of ((of_char c :: nat) + 32) else c) ''news''
           = ''news''"
    "map (\<lambda>c. if c = CHR '' '' \<or> c = CHR ''-'' then CHR ''_''
              else if is_upper c then char_of ((of_char c :: nat) + 32) else c) ''x''
           = ''x''"
    by code_simp+
  show "safe_category L ''Pop Culture'' = ''pop_culture''"
    "safe_category L ''E-Sports'' = ''e_sports''"
    "safe_category L ''Meme!'' = ''meme!''"
    "safe_category L ''other'' = ''other''"
    "safe_category L ''humor'' = ''humor''"
    "safe_category L ''news'' = ''news''"
    "safe_category L ''x'' = ''x''"
    using a m by (simp_all only: safe_category_ascii)
qed



section \<open>Record normalizer: no exception leaves it\<close>

text \<open>
  C9. \<open>process_message\<close> returns for every input: an exception raised in the \<open>try\<close> block
  becomes the result \<open>None\<close> with an error logged, and a block that completes gives the
  dict it built. On a dict, that result holds under each of the seven keys the value of
  the input, its default, or its conversion by \<open>float\<close> and \<open>int\<close>. A dict without the key
  \<open>message\<close> always gives \<open>None\<close>.
\<close>

theorem process_message_total:
  "(process_message_try L msg = Inl e \<longrightarrow> process_message L msg = (None, Error_processing e))
   \<and> (process_message_try L msg = Inr (p, ev) \<longrightarrow> process_message L msg = (Some p, ev))
   \<and> (process_message L (PDict items) = (Some p, ev) \<longrightarrow>
        message p = item_or items ''message'' PNone
        \<and> author p = item_or items ''author'' PNone
        \<and> timestamp p = item_or items ''timestamp'' PNone
        \<and> category p = item_or items ''category'' (PStr ''other'')
        \<and> py_float L (item_or items ''sentiment'' (PFloat (Finite 0))) = Inr (sentiment p)
        \<and> keyword_mentioned p = item_or items ''keyword_mentioned'' (PStr [])
        \<and> py_int L (item_or items ''message_length'' (PInt 0)) = Inr (message_length p))
   \<and> (map_of items ''message'' = None \<longrightarrow>
        (\<exists>e'. process_message L (PDict items) = (None, Error_processing e')))"
  by (auto simp: process_message_def process_message_try_def bindE_def dict_get_def item_or_def
        slice50_def split: sum.splits prod.splits)

lemma str_prefix_hi: "str_prefix L 50 ''hi'' = ''hi''"
proof -
  have "list_all is_ascii ''hi''" by code_simp
  then show ?thesis by (simp add: str_prefix_def)
qed

theorem process_message_total_witness:
  "process_message_try ex_lib (PDict ex_items_no_message) = Inl TypeError
   \<and> process_message ex_lib (PDict ex_items_no_message) = (None, Error_processing TypeError)
   \<and> map_of ex_items_no_message ''message'' = None
   \<and> process_message ex_lib (PDict ex_items_valid) =
       (Some \<lparr>message = PStr ''hi'', author = PStr ''Al'', timestamp = PStr ''t1'',
              category = PStr ''other'', sentiment = Finite 0, keyword_mentioned = PStr [],
              message_length = 0\<rparr>,
        Processed (PStr ''other'') (PStr ''hi''))
   \<and> py_float ex_lib (item_or ex_items_valid ''sentiment'' (PFloat (Finite 0))) = Inr (Finite 0)"
proof -
  let ?p = "\<lparr>message = PStr ''hi'', author = PStr ''Al'', timestamp = PStr ''t1'',
              category = PStr ''other'', sentiment = Finite 0, keyword_mentioned = PStr [],
              message_length = 0\<rparr>"
  let ?ev = "Processed (PStr ''other'') (PStr ''hi'')"
  have h1: "process_message_try ex_lib (PDict ex_items_no_message) = Inl TypeError"
    by (simp add: process_message_try_def bindE_def dict_get_def item_or_def slice50_def
          py_float_def py_int_def ex_items_no_message_def)
  have h2: "process_message_try ex_lib (PDict ex_items_valid) = Inr (?p, ?ev)"
    by (simp add: process_message_try_def bindE_def dict_get_def item_or_def slice50_def
          py_float_def py_int_def ex_items_valid_def str_prefix_hi)
  have h3: "map_of ex_items_no_message ''message'' = None"
    by (simp add: ex_items_no_message_def)
  from process_message_total [of ex_lib "PDict ex_items_no_message" TypeError ?p ?ev
      ex_items_no_message] h1 h3
  have c1: "process_message ex_lib (PDict ex_items_no_message) = (None, Error_processing TypeError)"
    by simp
  from process_message_total [of ex_lib "PDict ex_items_valid" TypeError ?p ?ev ex_items_valid] h2
  have c2: "process_message ex_lib (PDict ex_items_valid) = (Some ?p, ?ev)"
    by simp
  from process_message_total [of ex_lib "PDict ex_items_valid" TypeError ?p ?ev ex_items_valid] c2
  have c3: "py_float ex_lib (item_or ex_items_valid ''sentiment'' (PFloat (Finite 0))) = Inr (Finite 0)"
    by simp
  show ?thesis using h1 h3 c1 c2 c3 by simp
qed

section \<open>Storage engine: the two inserts are one unit\<close>

lemma bindE_Inr_iff: "bindE r f = Inr y \<longleftrightarrow> (\<exists>v. r = Inr v \<and> f v = Inr y)"
  by (cases r) (simp_all add: bindE_def)

lemma not_null_Inr_iff: "not_null v = Inr x \<longleftrightarrow> v = Some x"
  by (cases v) (simp_all add: not_null_def)

lemma column_text_iff:
  "column_text L v = Some s \<longleftrightarrow> (\<exists>x. bind_param v = Inr x \<and> text_column L x = Some s)"
  by (cases "bind_param v") (simp_all add: column_text_def)

lemma bind_int_iff:
  "(\<exists>x. bind_param (PInt n) = Inr x) \<longleftrightarrow> - (2 ^ 63) \<le> n \<and> n < 2 ^ 63"
  by (simp add: bind_param_def)

lemma insert_master_Inr:
  assumes "insert_master L md d = Inr d1"
  shows "\<exists>m. d1 = d\<lparr>all_messages := all_messages d @ [m]\<rparr>
          \<and> column_text L (message md) = Some (m_message m)
          \<and> column_text L (author md) = Some (m_author m)
          \<and> column_text L (timestamp md) = Some (m_timestamp m)
          \<and> column_text L (category md) = Some (m_category m)
          \<and> can_bind (keyword_mentioned md)
          \<and> column_text L (keyword_mentioned md) = m_keyword_mentioned m
          \<and> sentiment md \<noteq> NaN \<and> m_sentiment m = sentiment md
          \<and> - (2 ^ 63) \<le> message_length md \<and> message_length md < 2 ^ 63
          \<and> m_message_length m = message_length md"
proof -
  from assms obtain m a t c s k n m' a' t' c' s' where
    b: "bind_param (message md) = Inr m" "bind_param (author md) = Inr a"
       "bind_param (timestamp md) = Inr t" "bind_param (category md) = Inr c"
       "bind_param (keyword_mentioned md) = Inr k" "bind_param (PInt (message_length md)) = Inr n"
    and t: "text_column L m = Some m'" "text_column L a = Some a'" "text_column L t = Some t'"
       "text_column L c = Some c'" "float_column (sentiment md) = Some s'"
    and d1: "d1 = d\<lparr>all_messages := all_messages d @
              [\<lparr>m_message = m', m_author = a', m_timestamp = t', m_category = c',
                m_sentiment = s', m_keyword_mentioned = text_column L k,
                m_message_length = message_length md\<rparr>]\<rparr>"
    unfolding insert_master_def by (auto simp: bindE_Inr_iff not_null_Inr_iff)
  from t(5) have s: "sentiment md \<noteq> NaN" "s' = sentiment md"
    by (auto simp: float_column_def split: if_splits)
  from b(6) have r: "- (2 ^ 63) \<le> message_length md \<and> message_length md < 2 ^ 63"
    using bind_int_iff[of "message_length md"] by blast
  show ?thesis
    using b t d1 s r
    by (intro exI[of _ "\<lparr>m_message = m', m_author = a', m_timestamp = t', m_category = c',
                m_sentiment = s', m_keyword_mentioned = text_column L k,
                m_message_length = message_length md\<rparr>"])
       (simp add: column_text_def can_bind_def)
qed

lemma insert_category_Inr:
  assumes "insert_category L name md d = Inr d1"
  shows "\<exists>r rows. category_tables d name = Some rows
          \<and> d1 = d\<lparr>category_tables := (category_tables d)(name \<mapsto> rows @ [r])\<rparr>
          \<and> column_text L (message md) = Some (c_message r)
          \<and> column_text L (author md) = Some (c_author r)
          \<and> column_text L (timestamp md) = Some (c_timestamp r)
          \<and> column_text L (keyword_mentioned md) = c_keyword_mentioned r
          \<and> c_sentiment r = sentiment md \<and> c_message_length r = message_length md"
proof -
  from assms obtain rows m a t k m' a' t' s' where
    rows: "category_tables d name = Some rows"
    and b: "bind_param (message md) = Inr m" "bind_param (author md) = Inr a"
       "bind_param (timestamp md) = Inr t" "bind_param (keyword_mentioned md) = Inr k"
    and t: "text_column L m = Some m'" "text_column L a = Some a'" "text_column L t = Some t'"
       "float_column (sentiment md) = Some s'"
    and d1: "d1 = d\<lparr>category_tables := (category_tables d)(name \<mapsto> rows @
              [\<lparr>c_message = m', c_author = a', c_timestamp = t',
                c_sentiment = s', c_keyword_mentioned = text_column L k,
                c_message_length = message_length md\<rparr>])\<rparr>"
    unfolding insert_category_def
    by (auto simp: bindE_Inr_iff not_null_Inr_iff split: option.splits)
  from t(4) have s: "s' = sentiment md"
    by (auto simp: float_column_def split: if_splits)
  show ?thesis
    using rows b t d1 s
    by (intro exI[of _ "\<lparr>c_message = m', c_author = a', c_timestamp = t',
                c_sentiment = s', c_keyword_mentioned = text_column L k,
                c_message_length = message_length md\<rparr>"] exI[of _ rows])
       (simp add: column_text_def)
qed

lemma insert_transaction_Inr:
  assumes "insert_transaction L c md d = Inr d'" and "category md = PStr c"
  shows "\<exists>m r rows. category_tables d (table_name L c) = Some rows
          \<and> d' = update_stats L c (d\<lparr>all_messages := all_messages d @ [m],
                 category_tables := (category_tables d)(table_name L c \<mapsto> rows @ [r])\<rparr>)
          \<and> m_category m = c \<and> same_fields m r \<and> row_of L md m
          \<and> sentiment md \<noteq> NaN \<and> encodable c
          \<and> - (2 ^ 63) \<le> message_length md \<and> message_length md < 2 ^ 63"
proof -
  from assms(1) obtain d1 d2 where 1: "insert_master L md d = Inr d1"
    and 2: "insert_category L (table_name L c) md d1 = Inr d2" and 3: "d' = update_stats L c d2"
    unfolding insert_transaction_def by (auto simp: bindE_Inr_iff)
  from insert_master_Inr[OF 1] obtain m where m: "d1 = d\<lparr>all_messages := all_messages d @ [m]\<rparr>"
    "column_text L (message md) = Some (m_message m)"
    "column_text L (author md) = Some (m_author m)"
    "column_text L (timestamp md) = Some (m_timestamp m)"
    "column_text L (category md) = Some (m_category m)"
    "can_bind (keyword_mentioned md)"
    "column_text L (keyword_mentioned md) = m_keyword_mentioned m"
    "sentiment md \<noteq> NaN" "m_sentiment m = sentiment md"
    "- (2 ^ 63) \<le> message_length md \<and> message_length md < 2 ^ 63"
    "m_message_length m = message_length md"
    by blast
  from insert_category_Inr[OF 2] obtain r rows where r:
    "category_tables d1 (table_name L c) = Some rows"
    "d2 = d1\<lparr>category_tables := (category_tables d1)(table_name L c \<mapsto> rows @ [r])\<rparr>"
    "column_text L (message md) = Some (c_message r)"
    "column_text L (author md) = Some (c_author r)"
    "column_text L (timestamp md) = Some (c_timestamp r)"
    "column_text L (keyword_mentioned md) = c_keyword_mentioned r"
    "c_sentiment r = sentiment md" "c_message_length r = message_length md"
    by blast
  have cat: "m_category m = c" and enc: "encodable c"
    using m(5) assms(2)
    by (simp_all add: column_text_def bind_param_def text_column_def split: if_splits)
  have same: "same_fields m r"
    using m r unfolding same_fields_def by auto
  have row: "row_of L md m"
    using m cat assms(2) unfolding row_of_def by simp
  have "d' = update_stats L c (d\<lparr>all_messages := all_messages d @ [m],
                 category_tables := (category_tables d)(table_name L c \<mapsto> rows @ [r])\<rparr>)"
    using 3 r(2) m(1) r(1) by simp
  moreover have "category_tables d (table_name L c) = Some rows" using r(1) m(1) by simp
  ultimately show ?thesis using cat enc same row m(8,10) by blast
qed

lemma create_category_table_effect:
  assumes "create_category_table L cat st = (r, st1)"
  shows "all_messages (db st1) = all_messages (db st)"
    and "category_stats (db st1) = category_stats (db st)"
    and "table_rows (db st1) name = table_rows (db st) name"
    and "slept st1 = slept st"
    and "r \<noteq> None \<Longrightarrow> st1 = st"
    and "r = None \<Longrightarrow> \<exists>c. cat = PStr c \<and> category_tables (db st1) (table_name L c) \<noteq> None
           \<and> encodable (safe_category L c)
           \<and> list_all is_ident_char (safe_category L c)
           \<and> table_name L c \<noteq> ''category_stats''
           \<and> logged st1 = logged st @ [Created_table (table_name L c)]"
  using assms
  by (auto simp: create_category_table_def info_def table_rows_def
        split: pyval.splits if_splits option.splits)

lemma insert_message_failure:
  assumes "insert_message L md st = (Some e, st')"
  shows "all_messages (db st') = all_messages (db st)"
    and "category_stats (db st') = category_stats (db st)"
    and "table_rows (db st') name = table_rows (db st) name"
    and "slept st' = slept st"
proof -
  obtain r st1 where c: "create_category_table L (category md) st = (r, st1)"
    by (cases "create_category_table L (category md) st")
  have "st' = st1"
    using assms c unfolding insert_message_def
    by (auto split: option.splits pyval.splits sum.splits)
  with create_category_table_effect[OF c]
  show "all_messages (db st') = all_messages (db st)"
    and "category_stats (db st') = category_stats (db st)"
    and "table_rows (db st') name = table_rows (db st) name"
    and "slept st' = slept st"
    by simp_all
qed

lemma insert_message_success:
  assumes "insert_message L md st = (None, st')"
  shows "\<exists>c m r. category md = PStr c
           \<and> all_messages (db st') = all_messages (db st) @ [m]
           \<and> table_rows (db st') (table_name L c) = table_rows (db st) (table_name L c) @ [r]
           \<and> (\<forall>name. name \<noteq> table_name L c \<longrightarrow> table_rows (db st') name = table_rows (db st) name)
           \<and> category_stats (db st') = (category_stats (db st))(c \<mapsto>
                \<lparr>message_count =
                   (case category_stats (db st) c of None \<Rightarrow> 0 | Some s \<Rightarrow> message_count s) + 1,
                 avg_sentiment = sql_avg L (map m_sentiment
                   (filter (\<lambda>x. m_category x = c) (all_messages (db st) @ [m])))\<rparr>)
           \<and> m_category m = c \<and> same_fields m r \<and> row_of L md m \<and> storable L md
           \<and> logged st' = logged st @ [Created_table (table_name L c), Inserted (table_name L c)]
           \<and> slept st' = slept st"
proof -
  obtain r0 st1 where c: "create_category_table L (category md) st = (r0, st1)"
    by (cases "create_category_table L (category md) st")
  from assms c have r0: "r0 = None"
    unfolding insert_message_def by (auto split: option.splits)
  from assms c r0 obtain cat d where cat: "category md = PStr cat"
    and tr: "insert_transaction L cat md (db st1) = Inr d"
    and st': "st' = info (Inserted (table_name L cat)) (st1\<lparr>db := d\<rparr>)"
    unfolding insert_message_def by (auto split: pyval.splits sum.splits)
  note ce = create_category_table_effect[OF c]
  from ce(6)[OF r0] cat have lg: "logged st1 = logged st @ [Created_table (table_name L cat)]"
    and idn: "list_all is_ident_char (safe_category L cat)"
    and enc: "encodable (safe_category L cat)"
    and nst: "table_name L cat \<noteq> ''category_stats''"
    by auto
  from insert_transaction_Inr[OF tr cat] obtain m r rows where
    rows: "category_tables (db st1) (table_name L cat) = Some rows"
    and d: "d = update_stats L cat ((db st1)\<lparr>all_messages := all_messages (db st1) @ [m],
                 category_tables := (category_tables (db st1))(table_name L cat \<mapsto> rows @ [r])\<rparr>)"
    and m: "m_category m = cat" "same_fields m r" "row_of L md m"
      "sentiment md \<noteq> NaN" "- (2 ^ 63) \<le> message_length md \<and> message_length md < 2 ^ 63"
    and encc: "encodable cat"
    by blast
  have sto: "storable L md"
    using m(3,4,5) cat idn enc encc nst unfolding storable_def row_of_def by simp
  have rows_eq: "table_rows (db st) (table_name L cat) = rows"
    using ce(3)[of "table_name L cat"] rows by (simp add: table_rows_def)
  have 1: "all_messages (db st') = all_messages (db st) @ [m]"
    using st' d ce(1) by (simp add: info_def update_stats_def)
  have 2: "table_rows (db st') (table_name L cat) = table_rows (db st) (table_name L cat) @ [r]"
    using st' d rows_eq by (simp add: info_def update_stats_def table_rows_def)
  have 3: "\<forall>name. name \<noteq> table_name L cat \<longrightarrow> table_rows (db st') name = table_rows (db st) name"
    using st' d ce(3) by (simp add: info_def update_stats_def table_rows_def)
  have 4: "category_stats (db st') = (category_stats (db st))(cat \<mapsto>
                \<lparr>message_count =
                   (case category_stats (db st) cat of None \<Rightarrow> 0 | Some s \<Rightarrow> message_count s) + 1,
                 avg_sentiment = sql_avg L (map m_sentiment
                   (filter (\<lambda>x. m_category x = cat) (all_messages (db st) @ [m])))\<rparr>)"
    using st' d ce(1,2) by (simp add: info_def update_stats_def)
  have 5: "logged st' = logged st @ [Created_table (table_name L cat), Inserted (table_name L cat)]"
    using st' lg by (simp add: info_def)
  have 6: "slept st' = slept st"
    using st' ce(4) by (simp add: info_def)
  show ?thesis using cat 1 2 3 4 5 6 m(1,2,3) sto by blast
qed

lemma storable_inserts:
  assumes "storable L md"
  shows "fst (insert_message L md st) = None"
proof -
  from assms obtain c where c: "category md = PStr c"
    and enc: "encodable c" "encodable (safe_category L c)"
    and idn: "list_all is_ident_char (safe_category L c)"
    and nst: "table_name L c \<noteq> ''category_stats''"
    unfolding storable_def by (auto split: pyval.splits)
  from assms obtain m a t m' a' t' k where
    b: "bind_param (message md) = Inr m" "bind_param (author md) = Inr a"
       "bind_param (timestamp md) = Inr t" "bind_param (keyword_mentioned md) = Inr k"
    and tx: "text_column L m = Some m'" "text_column L a = Some a'" "text_column L t = Some t'"
    and s: "sentiment md \<noteq> NaN"
    and r: "- (2 ^ 63) \<le> message_length md" "message_length md < 2 ^ 63"
    unfolding storable_def column_text_def can_bind_def
    by (auto split: sum.splits)
  have bc: "bind_param (category md) = Inr (SText c)" using c enc by (simp add: bind_param_def)
  have bn: "bind_param (PInt (message_length md)) = Inr (SInt (message_length md))"
    using r by (simp add: bind_param_def)
  have bs: "bind_param (PFloat (sentiment md)) = Inr (SReal (sentiment md))"
    using s by (simp add: bind_param_def)
  have fc: "float_column (sentiment md) = Some (sentiment md)"
    using s by (simp add: float_column_def)
  show ?thesis
    unfolding insert_message_def create_category_table_def insert_transaction_def
      insert_master_def insert_category_def
    using c idn enc nst b tx bc bn bs fc
    by (simp add: bindE_def not_null_def text_column_def info_def split: option.splits)
qed

lemma insert_message_storable_iff:
  "fst (insert_message L md st) = None \<longleftrightarrow> storable L md"
proof
  assume "fst (insert_message L md st) = None"
  then have "insert_message L md st = (None, snd (insert_message L md st))"
    by (metis prod.collapse)
  from insert_message_success[OF this] show "storable L md" by blast
next
  assume "storable L md"
  then show "fst (insert_message L md st) = None" by (rule storable_inserts)
qed

text \<open>
  C7. An insert that succeeds has appended one row to the master table and one row to the
  table of the record's category, and no row to any other category table; the master row
  carries the record's message, author, timestamp, category, sentiment, keyword and
  length, and the two rows agree on every column they share. An insert that fails has left the rows of the master table, of every
  category table and of the statistics table as they were.
\<close>

theorem insert_message_atomic:
  "(insert_message L md st = (None, st') \<longrightarrow>
      (\<exists>c m r. category md = PStr c
         \<and> all_messages (db st') = all_messages (db st) @ [m]
         \<and> table_rows (db st') (table_name L c) = table_rows (db st) (table_name L c) @ [r]
         \<and> (\<forall>name. name \<noteq> table_name L c \<longrightarrow>
                table_rows (db st') name = table_rows (db st) name)
         \<and> row_of L md m \<and> same_fields m r))
   \<and> (insert_message L md st = (Some e, st') \<longrightarrow>
        all_messages (db st') = all_messages (db st)
        \<and> (\<forall>name. table_rows (db st') name = table_rows (db st) name)
        \<and> category_stats (db st') = category_stats (db st))"
proof (intro conjI impI)
  assume "insert_message L md st = (None, st')"
  from insert_message_success[OF this]
  show "\<exists>c m r. category md = PStr c
         \<and> all_messages (db st') = all_messages (db st) @ [m]
         \<and> table_rows (db st') (table_name L c) = table_rows (db st) (table_name L c) @ [r]
         \<and> (\<forall>name. name \<noteq> table_name L c \<longrightarrow>
                table_rows (db st') name = table_rows (db st) name)
         \<and> row_of L md m \<and> same_fields m r"
    by blast
next
  assume a: "insert_message L md st = (Some e, st')"
  show "all_messages (db st') = all_messages (db st)" by (rule insert_message_failure(1)[OF a])
  show "\<forall>name. table_rows (db st') name = table_rows (db st) name"
    using insert_message_failure(3)[OF a] by blast
  show "category_stats (db st') = category_stats (db st)" by (rule insert_message_failure(2)[OF a])
qed

lemma ex_encodable:
  "encodable ''hi''" "encodable ''Al''" "encodable ''t1''" "encodable ''other''" "encodable []"
  "encodable ''humor''" "encodable ''news''" "encodable ''x''" "encodable ''Bo''"
  "encodable ''t2''" "encodable ''t3''" "encodable ''Meme!''" "encodable ''meme!''"
  by code_simp+

lemma ex_ident:
  "list_all is_ident_char ''other''" "list_all is_ident_char ''humor''"
  "list_all is_ident_char ''news''" "list_all is_ident_char ''x''"
  "\<not> list_all is_ident_char ''meme!''"
  by code_simp+

lemma ex_table_names:
  "table_name L ''other'' = ''category_other''" "table_name L ''humor'' = ''category_humor''"
  "table_name L ''news'' = ''category_news''" "table_name L ''x'' = ''category_x''"
  by (simp_all add: table_name_def safe_category_examples)

lemma ex_not_stats:
  "''category_other'' \<noteq> ''category_stats''" "''category_humor'' \<noteq> ''category_stats''"
  "''category_news'' \<noteq> ''category_stats''" "''category_x'' \<noteq> ''category_stats''"
  by simp_all

lemma ex_processed_storable: "storable L ex_processed"
  by (simp add: storable_def ex_processed_def column_text_def can_bind_def bind_param_def
        text_column_def ex_encodable ex_ident ex_table_names safe_category_examples
        del: list.pred_inject)

lemma ex_processed_no_author_fails:
  "fst (insert_message L ex_processed_no_author st) = Some IntegrityError"
  by (simp add: insert_message_def create_category_table_def insert_transaction_def
        insert_master_def insert_category_def bindE_def bind_param_def text_column_def
        not_null_def info_def float_column_def ex_processed_no_author_def
        ex_encodable ex_ident ex_table_names safe_category_examples del: list.pred_inject)

theorem insert_message_atomic_witness:
  "insert_message ex_lib ex_processed ex_state =
     (None, snd (insert_message ex_lib ex_processed ex_state))
   \<and> all_messages (db (snd (insert_message ex_lib ex_processed ex_state))) =
       [\<lparr>m_message = ''hi'', m_author = ''Al'', m_timestamp = ''t1'', m_category = ''other'',
         m_sentiment = Finite 0, m_keyword_mentioned = Some [], m_message_length = 0\<rparr>]
   \<and> table_rows (db (snd (insert_message ex_lib ex_processed ex_state))) ''category_other'' =
       [\<lparr>c_message = ''hi'', c_author = ''Al'', c_timestamp = ''t1'',
         c_sentiment = Finite 0, c_keyword_mentioned = Some [], c_message_length = 0\<rparr>]
   \<and> insert_message ex_lib ex_processed_no_author ex_state =
       (Some IntegrityError, snd (insert_message ex_lib ex_processed_no_author ex_state))
   \<and> all_messages (db (snd (insert_message ex_lib ex_processed_no_author ex_state))) = []
   \<and> table_rows (db (snd (insert_message ex_lib ex_processed_no_author ex_state)))
        ''category_other'' = []
   \<and> category_stats (db (snd (insert_message ex_lib ex_processed_no_author ex_state))) =
       Map.empty"
proof -
  let ?s1 = "snd (insert_message ex_lib ex_processed ex_state)"
  let ?s2 = "snd (insert_message ex_lib ex_processed_no_author ex_state)"
  have h1: "insert_message ex_lib ex_processed ex_state = (None, ?s1)"
    using storable_inserts[OF ex_processed_storable, of ex_lib ex_state] by (metis prod.collapse)
  have h2: "insert_message ex_lib ex_processed_no_author ex_state = (Some IntegrityError, ?s2)"
    using ex_processed_no_author_fails[of ex_lib ex_state] by (metis prod.collapse)
  have e: "all_messages (db ex_state) = []" "\<And>name. table_rows (db ex_state) name = []"
    "category_stats (db ex_state) = Map.empty"
    by (simp_all add: ex_state_def init_db_def table_rows_def)
  from insert_message_atomic [of ex_lib ex_processed ex_state ?s1 IntegrityError] h1
  obtain c m r where s: "category ex_processed = PStr c"
    "all_messages (db ?s1) = all_messages (db ex_state) @ [m]"
    "table_rows (db ?s1) (table_name ex_lib c) = table_rows (db ex_state) (table_name ex_lib c) @ [r]"
    "row_of ex_lib ex_processed m" "same_fields m r"
    by blast
  from s(1) have c: "c = ''other''" by (simp add: ex_processed_def)
  have m: "m = \<lparr>m_message = ''hi'', m_author = ''Al'', m_timestamp = ''t1'',
         m_category = ''other'', m_sentiment = Finite 0, m_keyword_mentioned = Some [],
         m_message_length = 0\<rparr>"
    using s(4)
    by (cases m) (simp add: row_of_def column_text_def bind_param_def text_column_def
          ex_processed_def ex_encodable)
  have r: "r = \<lparr>c_message = ''hi'', c_author = ''Al'', c_timestamp = ''t1'',
         c_sentiment = Finite 0, c_keyword_mentioned = Some [], c_message_length = 0\<rparr>"
    using s(5) m by (cases r) (simp add: same_fields_def)
  have c1: "all_messages (db ?s1) = [m]" using s(2) e(1) by simp
  have c2: "table_rows (db ?s1) ''category_other'' = [r]"
    using s(3) e(2) c by (simp add: ex_table_names)
  from insert_message_atomic [of ex_lib ex_processed_no_author ex_state ?s2 IntegrityError] h2 e
  have c3: "all_messages (db ?s2) = [] \<and> table_rows (db ?s2) ''category_other'' = []
     \<and> category_stats (db ?s2) = Map.empty"
    by simp
  show ?thesis using h1 h2 c1 c2 c3 m r by simp
qed

section \<open>Storage engine: the statistics follow the master table\<close>













section \<open>Ingestion loop: one line, one pass\<close>

lemma process_line_blank:
  "strip L line = [] \<Longrightarrow> process_line L line st n = (None, st, n)"
  by (simp add: process_line_def)


lemma process_line_decode_raises:
  "strip L line \<noteq> [] \<Longrightarrow> json_loads L (strip L line) = Inl e \<Longrightarrow> e \<noteq> JSONDecodeError \<Longrightarrow>
   process_line L line st n = (Some e, st, n)"
  by (simp add: process_line_def)

lemma process_line_rejected:
  "strip L line \<noteq> [] \<Longrightarrow> json_loads L (strip L line) = Inr msg \<Longrightarrow>
   process_message L msg = (None, ev) \<Longrightarrow>
   process_line L line st n = (None, info ev st, n)"
  by (simp add: process_line_def)

lemma process_line_stored:
  "strip L line \<noteq> [] \<Longrightarrow> json_loads L (strip L line) = Inr msg \<Longrightarrow>
   process_message L msg = (Some p, ev) \<Longrightarrow>
   insert_message L p (info ev st) = (None, st1) \<Longrightarrow>
   process_line L line st n =
     (if (n + 1) mod 10 = 0
      then (fst (log_analytics (get_category_analytics L (all_messages (db st1))) st1),
            snd (log_analytics (get_category_analytics L (all_messages (db st1))) st1),
            n + 1)
      else (None, st1, n + 1))"
  by (simp add: process_line_def split: prod.splits)

lemma process_line_insert_raises:
  "strip L line \<noteq> [] \<Longrightarrow> json_loads L (strip L line) = Inr msg \<Longrightarrow>
   process_message L msg = (Some p, ev) \<Longrightarrow>
   insert_message L p (info ev st) = (Some e, st1) \<Longrightarrow>
   process_line L line st n = (Some e, st1, n)"
  by (simp add: process_line_def)



lemma iter_lines_terminated:
  "CHR 0x0A \<notin> set l \<Longrightarrow> CHR 0x0D \<notin> set l \<Longrightarrow>
   iter_lines (l @ CHR 0x0A # rest) = (l @ [CHR 0x0A]) # iter_lines rest"
  by (induction l) auto

lemma iter_lines_unterminated:
  "CHR 0x0A \<notin> set l \<Longrightarrow> CHR 0x0D \<notin> set l \<Longrightarrow> l \<noteq> [] \<Longrightarrow> iter_lines l = [l]"
proof (induction l)
  case Nil
  then show ?case by simp
next
  case (Cons c l)
  show ?case
  proof (cases "l = []")
    case True
    with Cons.prems show ?thesis by simp
  next
    case False
    with Cons show ?thesis by auto
  qed
qed

lemma is_space_LF: "is_space (CHR 0x0A)"
  by (simp add: is_space_def)

lemma is_ascii_LF: "is_ascii (CHR 0x0A)"
  by (simp add: is_ascii_def)

lemma strip_terminated:
  assumes "list_all is_ascii l"
  shows "strip L (l @ [CHR 0x0A]) = strip L l"
proof -
  have asc: "list_all is_ascii (l @ [CHR 0x0A])" using assms is_ascii_LF by simp
  have "rev (dropWhile is_space (rev (dropWhile is_space (l @ [CHR 0x0A])))) =
        rev (dropWhile is_space (rev (dropWhile is_space l)))"
  proof (cases "\<forall>c\<in>set l. is_space c")
    case True
    then have "\<forall>c\<in>set (l @ [CHR 0x0A]). is_space c"
      using is_space_LF by simp
    then have a: "dropWhile is_space (l @ [CHR 0x0A]) = []"
      by (rule dropWhile_eq_Nil_conv [THEN iffD2])
    have b: "dropWhile is_space l = []"
      using True by (rule dropWhile_eq_Nil_conv [THEN iffD2])
    show ?thesis by (simp only: a b)
  next
    case False
    then have "dropWhile is_space (l @ [CHR 0x0A]) = dropWhile is_space l @ [CHR 0x0A]"
      by (auto simp: dropWhile_append1)
    then show ?thesis using is_space_LF by simp
  qed
  then show ?thesis using assms asc by (simp only: strip_def if_True)
qed

lemma info_db: "db (info ev st) = db st" "slept (info ev st) = slept st"
  "logged (info ev st) = logged st @ [ev]"
  by (simp_all add: info_def)

lemma insert_message_slept: "slept (snd (insert_message L md st)) = slept st"
proof (cases "insert_message L md st")
  case (Pair r st')
  then show ?thesis
    using insert_message_failure(4)[of L md st _ st'] insert_message_success[of L md st st']
    by (cases r) auto
qed

lemma log_analytics_effect:
  "slept (snd (log_analytics rows st)) = slept st"
  "db (snd (log_analytics rows st)) = db st"
  by (simp_all add: log_analytics_def info_db)

lemma process_line_slept:
  assumes "process_line L line st n = (r, st', n')"
  shows "slept st' = slept st"
proof -
  have i: "slept (snd (insert_message L p (info ev st))) = slept st" for p ev
    using insert_message_slept[of L p "info ev st"] by (simp add: info_db)
  have j: "slept (snd (log_analytics rows (snd (insert_message L p (info ev st))))) = slept st"
    for rows p ev
    using i by (simp add: log_analytics_effect)
  show ?thesis
    using assms unfolding process_line_def
    by (auto simp: info_db split: if_splits option.splits prod.splits sum.splits)
       (metis i j snd_conv)+
qed

lemma process_lines_slept:
  "process_lines L ls st n = (r, st', n') \<Longrightarrow> slept st' = slept st"
proof (induction ls arbitrary: st n)
  case Nil
  then show ?case by simp
next
  case (Cons l ls)
  obtain r1 st1 n1 where p: "process_line L l st n = (r1, st1, n1)"
    by (cases "process_line L l st n") auto
  from process_line_slept[OF p] have s: "slept st1 = slept st" .
  show ?case
  proof (cases r1)
    case None
    with Cons.prems p have "process_lines L ls st1 n1 = (r, st', n')" by simp
    from Cons.IH[OF this] s show ?thesis by simp
  next
    case (Some e)
    with Cons.prems p s show ?thesis by simp
  qed
qed

lemma consume_pass_outcome:
  "\<exists>r st' n'. consume_pass L f pos st n = (Some r, st', n') \<and> slept st' = slept st
     \<and> ((\<exists>p. r = Returned p) \<or> r = Exited 10 \<or> r = Exited 11)"
proof (cases f)
  case Missing
  then show ?thesis by (simp add: consume_pass_def Let_def info_db)
next
  case Unreadable
  then show ?thesis by (simp add: consume_pass_def Let_def info_db)
next
  case (Content s)
  obtain r1 st1 n1 where
    p: "process_lines L (iter_lines (drop pos s)) (info (Reading pos) st) n = (r1, st1, n1)"
    by (cases "process_lines L (iter_lines (drop pos s)) (info (Reading pos) st) n") auto
  from process_lines_slept[OF p] have "slept st1 = slept st" by (simp add: info_db)
  with Content p show ?thesis
    by (cases r1) (simp_all add: consume_pass_def Let_def info_db)
qed

lemma consume_is_one_pass:
  "consume_messages_from_file L f interval_secs last_position st =
     (case consume_pass L f last_position (info (Called interval_secs last_position) st) 0 of
        (r, st', n') \<Rightarrow> Some (the r, st'))"
proof -
  from consume_pass_outcome[of L f last_position "info (Called interval_secs last_position) st" 0]
  obtain r st' n' where
    p: "consume_pass L f last_position (info (Called interval_secs last_position) st) 0
          = (Some r, st', n')"
    by blast
  show ?thesis
    unfolding consume_messages_from_file_def
    by (subst consume_loop.simps) (simp add: p)
qed


lemma consume_content:
  "consume_messages_from_file L (Content s) interval_secs last_position st =
     Some (case process_lines L (iter_lines (drop last_position s))
                  (info (Reading last_position)
                     (info (Called interval_secs last_position) st)) 0 of
             (None, st', n') \<Rightarrow> (Returned (max last_position (length s)), st')
           | (Some e, st', n') \<Rightarrow> (Exited 11, info (Error_reading e) st'))"
  by (simp add: consume_is_one_pass consume_pass_def Let_def split: prod.splits option.splits)





section \<open>Tailing reader: where the cursor ends\<close>



lemma consume_pass_raises:
  assumes "process_lines L (iter_lines (drop pos s)) (info (Reading pos) st) n = (Some e, st', n')"
  shows "consume_pass L (Content s) pos st n = (Some (Exited 11), info (Error_reading e) st', n')"
  using assms by (simp add: consume_pass_def Let_def)


lemma process_message_fields:
  assumes "process_message L (PDict items) = (Some p, ev)"
  shows "message p = item_or items ''message'' PNone"
    and "author p = item_or items ''author'' PNone"
    and "timestamp p = item_or items ''timestamp'' PNone"
    and "category p = item_or items ''category'' (PStr ''other'')"
  using assms
  by (auto simp: process_message_def process_message_try_def bindE_def dict_get_def
        split: sum.splits prod.splits)

lemma process_message_no_message:
  assumes "map_of items ''message'' = None"
  shows "\<exists>e. process_message L (PDict items) = (None, Error_processing e)"
  using assms
  by (auto simp: process_message_def process_message_try_def bindE_def dict_get_def item_or_def
        slice50_def split: sum.splits prod.splits)

lemma insert_message_author_None:
  assumes "author md = PNone"
  shows "\<exists>e. fst (insert_message L md st) = Some e"
proof -
  have "\<not> storable L md"
    using assms by (simp add: storable_def column_text_def bind_param_def text_column_def)
  then have "fst (insert_message L md st) \<noteq> None"
    by (simp add: insert_message_storable_iff)
  then show ?thesis by (cases "fst (insert_message L md st)") auto
qed

lemma ex_processed_inserts: "fst (insert_message L ex_processed st) = None"
  by (rule storable_inserts) (rule ex_processed_storable)

lemma strip_ascii:
  "list_all is_ascii s \<Longrightarrow> strip L s = rev (dropWhile is_space (rev (dropWhile is_space s)))"
  by (simp add: strip_def)

lemma ex_lines_ascii:
  "list_all is_ascii ex_line_valid" "list_all is_ascii ex_line_no_author"
  "list_all is_ascii ex_line_no_message" "list_all is_ascii ex_line_meme"
  "list_all is_ascii ex_line_malformed"
  unfolding ex_line_valid_def ex_line_no_author_def ex_line_no_message_def ex_line_meme_def
    ex_line_malformed_def
  by code_simp+

lemma ex_lines_stripped:
  "rev (dropWhile is_space (rev (dropWhile is_space ex_line_valid))) = ex_line_valid"
  "rev (dropWhile is_space (rev (dropWhile is_space ex_line_no_author))) = ex_line_no_author"
  "rev (dropWhile is_space (rev (dropWhile is_space ex_line_no_message))) = ex_line_no_message"
  "rev (dropWhile is_space (rev (dropWhile is_space ex_line_meme))) = ex_line_meme"
  "rev (dropWhile is_space (rev (dropWhile is_space ex_line_malformed))) = ''{\"message\":''"
  unfolding ex_line_valid_def ex_line_no_author_def ex_line_no_message_def ex_line_meme_def
    ex_line_malformed_def
  by code_simp+

lemma strip_ex_line_valid: "strip L ex_line_valid = ex_line_valid"
  by (simp only: strip_ascii[OF ex_lines_ascii(1)] ex_lines_stripped)

lemma strip_ex_line_no_author: "strip L ex_line_no_author = ex_line_no_author"
  by (simp only: strip_ascii[OF ex_lines_ascii(2)] ex_lines_stripped)

lemma strip_ex_line_no_message: "strip L ex_line_no_message = ex_line_no_message"
  by (simp only: strip_ascii[OF ex_lines_ascii(3)] ex_lines_stripped)

lemma strip_ex_line_meme: "strip L ex_line_meme = ex_line_meme"
  by (simp only: strip_ascii[OF ex_lines_ascii(4)] ex_lines_stripped)

lemma strip_ex_line_malformed: "strip L ex_line_malformed = ''{\"message\":''"
  by (simp only: strip_ascii[OF ex_lines_ascii(5)] ex_lines_stripped)

lemma ex_lines_distinct:
  "ex_line_valid \<noteq> []" "ex_line_no_author \<noteq> []" "ex_line_no_message \<noteq> []"
  "ex_line_meme \<noteq> []"
  "ex_line_no_author \<noteq> ex_line_valid" "ex_line_no_message \<noteq> ex_line_valid"
  "ex_line_no_message \<noteq> ex_line_no_author"
  "ex_line_meme \<noteq> ex_line_valid" "ex_line_meme \<noteq> ex_line_no_author"
  "ex_line_meme \<noteq> ex_line_no_message"
  by (simp_all add: ex_line_valid_def ex_line_no_author_def ex_line_no_message_def
        ex_line_meme_def)

lemma ex_lines_no_terminator:
  "CHR 0x0A \<notin> set ex_line_valid" "CHR 0x0D \<notin> set ex_line_valid"
  "CHR 0x0A \<notin> set ex_line_no_author" "CHR 0x0D \<notin> set ex_line_no_author"
  "CHR 0x0A \<notin> set ex_line_no_message" "CHR 0x0D \<notin> set ex_line_no_message"
  "CHR 0x0A \<notin> set ex_line_malformed" "CHR 0x0D \<notin> set ex_line_malformed"
  "CHR 0x0A \<notin> set ex_line_meme" "CHR 0x0D \<notin> set ex_line_meme"
  by (simp_all add: ex_line_valid_def ex_line_no_author_def ex_line_no_message_def
        ex_line_malformed_def ex_line_meme_def)

lemma ex_loads:
  "json_loads ex_lib ex_line_valid = Inr (PDict ex_items_valid)"
  "json_loads ex_lib ex_line_no_author = Inr (PDict ex_items_no_author)"
  "json_loads ex_lib ex_line_no_message = Inr (PDict ex_items_no_message)"
  "json_loads ex_lib ex_line_meme = Inr (PDict ex_items_meme)"
  using ex_lines_distinct by (simp_all add: ex_lib_def)

lemma ex_process_valid:
  "process_message L (PDict ex_items_valid) =
     (Some ex_processed, Processed (PStr ''other'') (PStr ''hi''))"
  by (simp add: process_message_def process_message_try_def bindE_def dict_get_def item_or_def
        slice50_def py_float_def py_int_def ex_items_valid_def ex_processed_def str_prefix_hi)

lemma ex_process_no_author:
  "process_message L (PDict ex_items_no_author) =
     (Some ex_processed_no_author, Processed (PStr ''other'') (PStr ''hi''))"
  by (simp add: process_message_def process_message_try_def bindE_def dict_get_def item_or_def
        slice50_def py_float_def py_int_def ex_items_no_author_def ex_processed_no_author_def
        str_prefix_hi)


lemma insert_message_None_collapse:
  "fst (insert_message L p st) = None \<Longrightarrow>
   insert_message L p st = (None, snd (insert_message L p st))"
  by (metis prod.collapse)






section \<open>Ingestion loop: a line that does not decode\<close>

lemma two_lines:
  assumes "CHR 0x0A \<notin> set bad" "CHR 0x0D \<notin> set bad"
    and "CHR 0x0A \<notin> set good" "CHR 0x0D \<notin> set good"
  shows "iter_lines (bad @ CHR 0x0A # good @ [CHR 0x0A]) = [bad @ [CHR 0x0A], good @ [CHR 0x0A]]"
  using iter_lines_terminated[OF assms(1,2), of "good @ [CHR 0x0A]"]
    iter_lines_terminated[OF assms(3,4), of "[]"]
  by simp

lemma ex_terminated_stripped:
  "strip L (ex_line_valid @ [CHR 0x0A]) = ex_line_valid"
  "strip L (ex_line_no_author @ [CHR 0x0A]) = ex_line_no_author"
  "strip L (ex_line_no_message @ [CHR 0x0A]) = ex_line_no_message"
  "strip L (ex_line_meme @ [CHR 0x0A]) = ex_line_meme"
  "strip L (ex_line_malformed @ [CHR 0x0A]) = ''{\"message\":''"
  by (simp_all only: strip_terminated[OF ex_lines_ascii(1)] strip_terminated[OF ex_lines_ascii(2)]
        strip_terminated[OF ex_lines_ascii(3)] strip_terminated[OF ex_lines_ascii(4)]
        strip_terminated[OF ex_lines_ascii(5)] strip_ex_line_valid strip_ex_line_no_author
        strip_ex_line_no_message strip_ex_line_meme strip_ex_line_malformed)







section \<open>Ingestion loop: a record without a required key\<close>

lemma missing_author_raises:
  assumes "strip L line \<noteq> []" and "json_loads L (strip L line) = Inr (PDict items)"
    and "map_of items ''author'' = None"
    and "process_message L (PDict items) = (Some p, ev)"
  shows "\<exists>e st'. process_line L line st n = (Some e, st', n)
           \<and> all_messages (db st') = all_messages (db st)
           \<and> (\<forall>name. table_rows (db st') name = table_rows (db st) name)
           \<and> category_stats (db st') = category_stats (db st)"
proof -
  have "author p = PNone"
    using process_message_fields(2)[OF assms(4)] assms(3) by (simp add: item_or_def)
  from insert_message_author_None[OF this, of L "info ev st"]
  obtain e where "fst (insert_message L p (info ev st)) = Some e" by blast
  then have i: "insert_message L p (info ev st) = (Some e, snd (insert_message L p (info ev st)))"
    by (metis prod.collapse)
  note pl = process_line_insert_raises[OF assms(1,2,4) i, of n]
  from insert_message_failure(1,2)[OF i] insert_message_failure(3)[OF i] pl
  show ?thesis by (auto simp: info_db)
qed

lemma ex_no_author_poll:
  "\<exists>st'. consume_pass ex_lib
       (Content (ex_line_no_author @ CHR 0x0A # ex_line_valid @ [CHR 0x0A])) 0 ex_state 0
         = (Some (Exited 11), st', 0)
     \<and> all_messages (db st') = []"
proof -
  let ?s = "ex_line_no_author @ CHR 0x0A # ex_line_valid @ [CHR 0x0A]"
  have lines: "iter_lines (drop 0 ?s) = [ex_line_no_author @ [CHR 0x0A], ex_line_valid @ [CHR 0x0A]]"
    using two_lines[OF ex_lines_no_terminator(3,4) ex_lines_no_terminator(1,2)] by simp
  have st: "strip ex_lib (ex_line_no_author @ [CHR 0x0A]) = ex_line_no_author"
    by (rule ex_terminated_stripped)
  have 1: "strip ex_lib (ex_line_no_author @ [CHR 0x0A]) \<noteq> []"
    unfolding st using ex_lines_distinct(2) .
  have 2: "json_loads ex_lib (strip ex_lib (ex_line_no_author @ [CHR 0x0A])) = Inr (PDict ex_items_no_author)"
    unfolding st by (rule ex_loads(2))
  have 3: "map_of ex_items_no_author ''author'' = None" by (simp add: ex_items_no_author_def)
  from missing_author_raises[OF 1 2 3 ex_process_no_author, of "info (Reading 0) ex_state" 0]
  obtain e st' where pl: "process_line ex_lib (ex_line_no_author @ [CHR 0x0A])
        (info (Reading 0) ex_state) 0 = (Some e, st', 0)"
    and ms: "all_messages (db st') = all_messages (db (info (Reading 0) ex_state))"
    by blast
  have "process_lines ex_lib (iter_lines (drop 0 ?s)) (info (Reading 0) ex_state) 0 = (Some e, st', 0)"
    unfolding lines using pl by simp
  from consume_pass_raises[OF this] ms show ?thesis
    by (simp add: info_db ex_state_def init_db_def)
qed

text \<open>
  C1, as the code has it. A decoded record without the key \<open>message\<close> is rejected by the
  normalizer: an error is logged, the store is untouched, the count of stored records is
  unchanged, and the loop goes on with the next line. A decoded record without the key
  \<open>author\<close> that the normalizer accepts reaches the insert, which raises: the master
  table, the rows of every category table and the statistics table are left as they were,
  the remaining lines are not processed, and the poll exits the process with code 11.
\<close>

theorem missing_required_key:
  "(strip L line \<noteq> [] \<and> json_loads L (strip L line) = Inr (PDict items)
      \<and> map_of items ''message'' = None \<longrightarrow>
      (\<exists>e. process_line L line st n = (None, info (Error_processing e) st, n)
          \<and> process_lines L (line # rest) st n
              = process_lines L rest (info (Error_processing e) st) n
          \<and> db (info (Error_processing e) st) = db st))
   \<and> (strip L line \<noteq> [] \<and> json_loads L (strip L line) = Inr (PDict items)
      \<and> map_of items ''author'' = None
      \<and> process_message L (PDict items) = (Some p, ev) \<longrightarrow>
      (\<exists>e st'. process_lines L (line # rest) st n = (Some e, st', n)
          \<and> all_messages (db st') = all_messages (db st)
          \<and> (\<forall>name. table_rows (db st') name = table_rows (db st) name)
          \<and> category_stats (db st') = category_stats (db st))
      \<and> (\<forall>s pos. iter_lines (drop pos s) = line # rest \<longrightarrow>
            fst (consume_pass L (Content s) pos st n) = Some (Exited 11)))"
proof (intro conjI impI)
  assume a: "strip L line \<noteq> [] \<and> json_loads L (strip L line) = Inr (PDict items)
      \<and> map_of items ''message'' = None"
  from a have "map_of items ''message'' = None" by simp
  from process_message_no_message[OF this, of L]
  obtain e where e: "process_message L (PDict items) = (None, Error_processing e)" by blast
  from process_line_rejected[of L line "PDict items" "Error_processing e" st n] a e
  have "process_line L line st n = (None, info (Error_processing e) st, n)" by simp
  then show "\<exists>e. process_line L line st n = (None, info (Error_processing e) st, n)
          \<and> process_lines L (line # rest) st n
              = process_lines L rest (info (Error_processing e) st) n
          \<and> db (info (Error_processing e) st) = db st"
    by (auto simp: info_db)
next
  assume a: "strip L line \<noteq> [] \<and> json_loads L (strip L line) = Inr (PDict items)
      \<and> map_of items ''author'' = None
      \<and> process_message L (PDict items) = (Some p, ev)"
  from missing_author_raises[of L line items p ev st n] a
  show "\<exists>e st'. process_lines L (line # rest) st n = (Some e, st', n)
          \<and> all_messages (db st') = all_messages (db st)
          \<and> (\<forall>name. table_rows (db st') name = table_rows (db st) name)
          \<and> category_stats (db st') = category_stats (db st)"
    by auto
next
  assume a: "strip L line \<noteq> [] \<and> json_loads L (strip L line) = Inr (PDict items)
      \<and> map_of items ''author'' = None
      \<and> process_message L (PDict items) = (Some p, ev)"
  show "\<forall>s pos. iter_lines (drop pos s) = line # rest \<longrightarrow>
            fst (consume_pass L (Content s) pos st n) = Some (Exited 11)"
  proof (intro allI impI)
    fix s pos
    assume l: "iter_lines (drop pos s) = line # rest"
    from a have a1: "strip L line \<noteq> []" and a2: "json_loads L (strip L line) = Inr (PDict items)"
      and a3: "map_of items ''author'' = None"
      and a4: "process_message L (PDict items) = (Some p, ev)"
      by simp_all
    from missing_author_raises[OF a1 a2 a3 a4, of "info (Reading pos) st" n]
    obtain e st' where "process_line L line (info (Reading pos) st) n = (Some e, st', n)"
      by blast
    then have "process_lines L (iter_lines (drop pos s)) (info (Reading pos) st) n = (Some e, st', n)"
      unfolding l by simp
    from consume_pass_raises[OF this]
    show "fst (consume_pass L (Content s) pos st n) = Some (Exited 11)" by simp
  qed
qed

theorem missing_required_key_witness:
  "strip ex_lib ex_line_no_message \<noteq> []
   \<and> json_loads ex_lib (strip ex_lib ex_line_no_message) = Inr (PDict ex_items_no_message)
   \<and> map_of ex_items_no_message ''message'' = None
   \<and> (\<exists>e. process_lines ex_lib [ex_line_no_message] ex_state 0
            = (None, info (Error_processing e) ex_state, 0))
   \<and> strip ex_lib ex_line_no_author \<noteq> []
   \<and> json_loads ex_lib (strip ex_lib ex_line_no_author) = Inr (PDict ex_items_no_author)
   \<and> map_of ex_items_no_author ''author'' = None
   \<and> (\<exists>e st'. process_lines ex_lib [ex_line_no_author] ex_state 0 = (Some e, st', 0)
          \<and> all_messages (db st') = []
          \<and> category_stats (db st') = Map.empty)
   \<and> iter_lines (drop 0 ex_line_no_author) = [ex_line_no_author]
   \<and> fst (consume_pass ex_lib (Content ex_line_no_author) 0 ex_state 0) = Some (Exited 11)"
proof -
  have a: "strip ex_lib ex_line_no_message \<noteq> []
      \<and> json_loads ex_lib (strip ex_lib ex_line_no_message) = Inr (PDict ex_items_no_message)
      \<and> map_of ex_items_no_message ''message'' = None"
    using ex_lines_distinct(3)
    by (simp add: strip_ex_line_no_message ex_loads(3) ex_items_no_message_def)
  have b: "strip ex_lib ex_line_no_author \<noteq> []
      \<and> json_loads ex_lib (strip ex_lib ex_line_no_author) = Inr (PDict ex_items_no_author)
      \<and> map_of ex_items_no_author ''author'' = None
      \<and> process_message ex_lib (PDict ex_items_no_author)
          = (Some ex_processed_no_author, Processed (PStr ''other'') (PStr ''hi''))"
    using ex_lines_distinct(2) ex_process_no_author
    by (simp add: strip_ex_line_no_author ex_loads(2)) (simp add: ex_items_no_author_def)
  have l: "iter_lines (drop 0 ex_line_no_author) = [ex_line_no_author]"
    using iter_lines_unterminated[OF ex_lines_no_terminator(3,4) ex_lines_distinct(2)] by simp
  from missing_required_key [of ex_lib ex_line_no_message ex_items_no_message ex_state 0 "[]"
      ex_processed_no_author "Processed (PStr ''other'') (PStr ''hi'')"] a
  have c1: "\<exists>e. process_lines ex_lib [ex_line_no_message] ex_state 0
            = (None, info (Error_processing e) ex_state, 0)"
    by auto
  from missing_required_key [of ex_lib ex_line_no_author ex_items_no_author ex_state 0 "[]"
      ex_processed_no_author "Processed (PStr ''other'') (PStr ''hi'')"] b
  have c2: "(\<exists>e st'. process_lines ex_lib [ex_line_no_author] ex_state 0 = (Some e, st', 0)
          \<and> all_messages (db st') = all_messages (db ex_state)
          \<and> category_stats (db st') = category_stats (db ex_state))
      \<and> (\<forall>s pos. iter_lines (drop pos s) = [ex_line_no_author] \<longrightarrow>
            fst (consume_pass ex_lib (Content s) pos ex_state 0) = Some (Exited 11))"
    by blast
  then have c3: "fst (consume_pass ex_lib (Content ex_line_no_author) 0 ex_state 0) = Some (Exited 11)"
    using l by blast
  have e: "all_messages (db ex_state) = []" "category_stats (db ex_state) = Map.empty"
    by (simp_all add: ex_state_def init_db_def)
  show ?thesis using a b c1 c2 c3 l unfolding e by blast
qed

text \<open>
  C1, as the claim states it, fails: on a file whose first line is a record without
  \<open>author\<close> and whose second line is a valid record, the poll exits with code 11 and
  the valid record is not stored.
\<close>

theorem missing_author_ends_run:
  "map_of ex_items_no_author ''author'' = None
   \<and> json_loads ex_lib (strip ex_lib (ex_line_no_author @ [CHR 0x0A])) = Inr (PDict ex_items_no_author)
   \<and> fst (consume_pass ex_lib
        (Content (ex_line_no_author @ CHR 0x0A # ex_line_valid @ [CHR 0x0A])) 0 ex_state 0)
       = Some (Exited 11)
   \<and> all_messages (db (fst (snd (consume_pass ex_lib
        (Content (ex_line_no_author @ CHR 0x0A # ex_line_valid @ [CHR 0x0A])) 0 ex_state 0)))) = []"
proof -
  have "json_loads ex_lib (strip ex_lib (ex_line_no_author @ [CHR 0x0A])) = Inr (PDict ex_items_no_author)"
    by (simp add: ex_terminated_stripped ex_loads(2))
  moreover have "map_of ex_items_no_author ''author'' = None" by (simp add: ex_items_no_author_def)
  ultimately show ?thesis using ex_no_author_poll by auto
qed

section \<open>Ingestion loop: when the report is emitted\<close>

lemma reports_info:
  "reports (info ev st) = reports st + (if is_analytics ev then 1 else 0)"
  by (simp add: reports_def info_def)

lemma process_message_event: "process_message L msg = (r, ev) \<Longrightarrow> \<not> is_analytics ev"
  by (auto simp: process_message_def process_message_try_def bindE_def is_analytics_def
        split: sum.splits prod.splits)

lemma insert_message_reports: "reports (snd (insert_message L md st)) = reports st"
proof (cases "insert_message L md st")
  case (Pair r st')
  show ?thesis
  proof (cases r)
    case None
    with Pair have "insert_message L md st = (None, st')" by simp
    from insert_message_success[OF this] Pair show ?thesis
      by (auto simp: reports_def is_analytics_def)
  next
    case (Some e)
    obtain r0 st1 where c: "create_category_table L (category md) st = (r0, st1)"
      by (cases "create_category_table L (category md) st")
    have "st' = st1"
      using Pair Some c unfolding insert_message_def
      by (auto split: option.splits pyval.splits sum.splits)
    moreover have "reports st1 = reports st"
      using create_category_table_effect(5,6)[OF c]
      by (cases r0) (auto simp: reports_def is_analytics_def)
    ultimately show ?thesis using Pair by simp
  qed
qed

lemma insert_message_rows:
  "insert_message L md st = (r, st') \<Longrightarrow>
   length (all_messages (db st')) = length (all_messages (db st)) + (if r = None then 1 else 0)"
  using insert_message_success[of L md st st'] insert_message_failure(1)[of L md st _ st']
  by (cases r) auto

lemma log_analytics_reports:
  "reports (snd (log_analytics rows st)) = reports st + 1"
  by (simp add: log_analytics_def reports_info is_analytics_def)

lemma process_line_counts:
  assumes "process_line L line st n = (r, st', n')"
  shows "n \<le> n' \<and> n' \<le> n + 1
     \<and> length (all_messages (db st')) = length (all_messages (db st)) + (n' - n)
     \<and> reports st' = reports st + (n' div 10 - n div 10)"
proof (cases "strip L line = []")
  case True
  with assms show ?thesis by (simp add: process_line_def)
next
  case ne: False
  show ?thesis
  proof (cases "json_loads L (strip L line)")
    case (Inl e)
    with assms ne show ?thesis
      by (auto simp: process_line_def reports_info is_analytics_def info_db split: if_splits)
  next
    case (Inr msg)
    obtain pm ev where pm: "process_message L msg = (pm, ev)"
      by (cases "process_message L msg")
    note nev = process_message_event[OF pm]
    show ?thesis
    proof (cases pm)
      case None
      with assms ne Inr pm nev show ?thesis
        by (auto simp: process_line_def reports_info info_db)
    next
      case sp: (Some p)
      obtain ri st1 where i: "insert_message L p (info ev st) = (ri, st1)"
        by (cases "insert_message L p (info ev st)")
      have r1: "reports st1 = reports st"
        using insert_message_reports[of L p "info ev st"] i nev by (simp add: reports_info)
      have m1: "length (all_messages (db st1)) =
          length (all_messages (db st)) + (if ri = None then 1 else 0)"
        using insert_message_rows[OF i] by (simp add: info_db)
      show ?thesis
      proof (cases ri)
        case None
        have d: "(n + 1) div 10 - n div 10 = (if (n + 1) mod 10 = 0 then 1 else 0)"
          by presburger
        have pl: "process_line L line st n =
           (if (n + 1) mod 10 = 0
            then (fst (log_analytics (get_category_analytics L (all_messages (db st1))) st1),
                  snd (log_analytics (get_category_analytics L (all_messages (db st1))) st1),
                  n + 1)
            else (None, st1, n + 1))"
          using process_line_stored[OF ne Inr] pm sp i None by simp
        show ?thesis
        proof (cases "(n + 1) mod 10 = 0")
          case True
          with pl assms have "n' = n + 1"
            and "st' = snd (log_analytics (get_category_analytics L (all_messages (db st1))) st1)"
            by simp_all
          with True r1 m1 None d show ?thesis
            by (simp add: log_analytics_reports log_analytics_effect)
        next
          case False
          with pl assms have "n' = n + 1" and "st' = st1" by simp_all
          with False r1 m1 None d show ?thesis by simp
        qed
      next
        case (Some e)
        with assms ne Inr pm sp i r1 m1 show ?thesis
          by (auto simp: process_line_def)
      qed
    qed
  qed
qed

lemma process_lines_counts:
  "process_lines L ls st n = (r, st', n') \<Longrightarrow>
   n \<le> n' \<and> n' \<le> n + length ls
     \<and> length (all_messages (db st')) = length (all_messages (db st)) + (n' - n)
     \<and> reports st' = reports st + (n' div 10 - n div 10)"
proof (induction ls arbitrary: st n)
  case Nil
  then show ?case by simp
next
  case (Cons l ls)
  obtain r1 st1 n1 where p: "process_line L l st n = (r1, st1, n1)"
    by (cases "process_line L l st n") auto
  note c1 = process_line_counts[OF p]
  show ?case
  proof (cases r1)
    case (Some e)
    with Cons.prems p c1 show ?thesis by auto
  next
    case None
    with Cons.prems p have "process_lines L ls st1 n1 = (r, st', n')" by simp
    from Cons.IH[OF this] have c2: "n1 \<le> n' \<and> n' \<le> n1 + length ls
     \<and> length (all_messages (db st')) = length (all_messages (db st1)) + (n' - n1)
     \<and> reports st' = reports st1 + (n' div 10 - n1 div 10)" .
    have "n div 10 \<le> n1 div 10" "n1 div 10 \<le> n' div 10"
      using c1 c2 by (simp_all add: div_le_mono)
    with c1 c2 show ?thesis by auto
  qed
qed

lemma ex_avg_finite:
  assumes "xs \<noteq> []" and "\<forall>x\<in>set xs. is_finite x"
  shows "sql_avg ex_lib xs \<noteq> None"
proof -
  have "NaN \<notin> set xs" "PosInf \<notin> set xs" "NegInf \<notin> set xs"
    using assms(2) by (auto simp: is_finite_def)
  then show ?thesis using assms(1) by (simp add: sql_avg_def ex_lib_def ex_avg_def)
qed

lemma analytics_finite:
  assumes "\<forall>m\<in>set ms. is_finite (m_sentiment m)"
  shows "list_all (\<lambda>r. s_avg_sentiment r \<noteq> None) (get_category_analytics ex_lib ms)"
proof -
  have "s_avg_sentiment (summary ex_lib ms c) \<noteq> None" if "c \<in> set (map m_category ms)" for c
  proof -
    from that have "filter (\<lambda>r. m_category r = c) ms \<noteq> []"
      by (auto simp: filter_empty_conv)
    then have "map m_sentiment (filter (\<lambda>r. m_category r = c) ms) \<noteq> []" by simp
    moreover have "\<forall>x\<in>set (map m_sentiment (filter (\<lambda>r. m_category r = c) ms)). is_finite x"
      using assms by auto
    ultimately show ?thesis
      using ex_avg_finite by (simp add: summary_def Let_def)
  qed
  then show ?thesis
    by (simp add: get_category_analytics_def category_groups_def list_all_iff)
qed

lemma ex_valid_line_stored_any:
  assumes "strip ex_lib line = ex_line_valid"
    and "\<forall>m\<in>set (all_messages (db st)). is_finite (m_sentiment m)"
  shows "\<exists>st1. process_line ex_lib line st n = (None, st1, n + 1)
         \<and> (\<forall>m\<in>set (all_messages (db st1)). is_finite (m_sentiment m))"
proof -
  let ?st0 = "info (Processed (PStr ''other'') (PStr ''hi'')) st"
  let ?st1 = "snd (insert_message ex_lib ex_processed ?st0)"
  have i: "insert_message ex_lib ex_processed ?st0 = (None, ?st1)"
    by (rule insert_message_None_collapse) (rule ex_processed_inserts)
  have ne: "strip ex_lib line \<noteq> []" using assms ex_lines_distinct(1) by simp
  have l: "json_loads ex_lib (strip ex_lib line) = Inr (PDict ex_items_valid)"
    using assms ex_loads(1) by simp
  note pl = process_line_stored[OF ne l ex_process_valid i, of n]
  from insert_message_success[OF i] obtain m where
    ms: "all_messages (db ?st1) = all_messages (db ?st0) @ [m]"
    and ro: "row_of ex_lib ex_processed m"
    by blast
  from ro have "m_sentiment m = Finite 0" by (simp add: row_of_def ex_processed_def)
  then have fin: "\<forall>m\<in>set (all_messages (db ?st1)). is_finite (m_sentiment m)"
    using ms assms(2) by (auto simp: info_db is_finite_def)
  show ?thesis
  proof (cases "(n + 1) mod 10 = 0")
    case False
    with pl fin show ?thesis by simp
  next
    case True
    let ?rows = "get_category_analytics ex_lib (all_messages (db ?st1))"
    have la: "log_analytics ?rows ?st1 = (None, info (Analytics ?rows) ?st1)"
      using analytics_finite[OF fin] by (simp add: log_analytics_def)
    have "process_line ex_lib line st n = (None, info (Analytics ?rows) ?st1, n + 1)"
      using pl True by (simp add: la)
    moreover have "\<forall>m\<in>set (all_messages (db (info (Analytics ?rows) ?st1))).
        is_finite (m_sentiment m)"
      using fin by (simp add: info_db)
    ultimately show ?thesis by blast
  qed
qed

lemma iter_lines_ex_lines: "iter_lines (ex_lines k) = replicate k (ex_line_valid @ [CHR 0x0A])"
  unfolding ex_lines_def
  by (induction k) (simp_all add: iter_lines_terminated[OF ex_lines_no_terminator(1,2)])

lemma ex_valid_lines_stored:
  assumes "\<forall>m\<in>set (all_messages (db st)). is_finite (m_sentiment m)"
  shows "\<exists>st'. process_lines ex_lib (replicate k (ex_line_valid @ [CHR 0x0A])) st n
             = (None, st', n + k)
          \<and> (\<forall>m\<in>set (all_messages (db st')). is_finite (m_sentiment m))"
  using assms
proof (induction k arbitrary: st n)
  case 0
  then show ?case by simp
next
  case (Suc k)
  have "strip ex_lib (ex_line_valid @ [CHR 0x0A]) = ex_line_valid"
    by (rule ex_terminated_stripped)
  from ex_valid_line_stored_any[OF this Suc.prems, of n]
  obtain st1 where p: "process_line ex_lib (ex_line_valid @ [CHR 0x0A]) st n = (None, st1, n + 1)"
    and f1: "\<forall>m\<in>set (all_messages (db st1)). is_finite (m_sentiment m)"
    by blast
  from Suc.IH[OF f1, of "n + 1"] obtain st' where
    "process_lines ex_lib (replicate k (ex_line_valid @ [CHR 0x0A])) st1 (n + 1)
       = (None, st', n + 1 + k)"
    and f2: "\<forall>m\<in>set (all_messages (db st')). is_finite (m_sentiment m)"
    by blast
  with p have "process_lines ex_lib (replicate (Suc k) (ex_line_valid @ [CHR 0x0A])) st n
       = (None, st', n + Suc k)" by simp
  with f2 show ?case by blast
qed

lemma consume_returns:
  assumes "process_lines L (iter_lines (drop pos s))
             (info (Reading pos) (info (Called i pos) st)) 0 = (None, st', n')"
  shows "consume_messages_from_file L (Content s) i pos st
           = Some (Returned (max pos (length s)), st')"
  using assms by (simp add: consume_content)

lemma ex_poll:
  assumes "drop pos s = ex_lines k"
    and "\<forall>m\<in>set (all_messages (db st)). is_finite (m_sentiment m)"
  shows "\<exists>st'. consume_messages_from_file ex_lib (Content s) i pos st
             = Some (Returned (max pos (length s)), st')
          \<and> length (all_messages (db st')) = length (all_messages (db st)) + k
          \<and> reports st' = reports st + k div 10
          \<and> (\<forall>m\<in>set (all_messages (db st')). is_finite (m_sentiment m))"
proof -
  let ?st0 = "info (Reading pos) (info (Called i pos) st)"
  have f0: "\<forall>m\<in>set (all_messages (db ?st0)). is_finite (m_sentiment m)"
    using assms(2) by (simp add: info_db)
  from ex_valid_lines_stored[OF f0, of k 0] obtain st' where
    p: "process_lines ex_lib (iter_lines (drop pos s)) ?st0 0 = (None, st', k)"
    and f: "\<forall>m\<in>set (all_messages (db st')). is_finite (m_sentiment m)"
    unfolding assms(1) iter_lines_ex_lines by auto
  from process_lines_counts[OF p]
  have "length (all_messages (db st')) = length (all_messages (db st)) + k"
    and "reports st' = reports st + k div 10"
    by (simp_all add: info_db reports_info is_analytics_def)
  with consume_returns[OF p] f show ?thesis by blast
qed

lemma length_ex_lines: "length (ex_lines k) = 53 * k"
  unfolding ex_lines_def by (induction k) (simp_all add: ex_line_valid_def)

lemma drop_ex_lines: "drop (length (ex_lines j)) (ex_lines (j + k)) = ex_lines k"
  unfolding ex_lines_def by (simp add: replicate_add)

lemma reports_slept: "reports (st\<lparr>slept := x\<rparr>) = reports st"
  by (simp add: reports_def)

lemma final_analytics_effect:
  "db (final_analytics L st) = db st" "reports (final_analytics L st) = reports st"
  by (simp_all add: final_analytics_def Let_def info_db reports_info is_analytics_def)

text \<open>
  C4. The count of stored records is kept per call of \<open>consume_messages_from_file\<close>, and
  a call is one poll. A run whose first poll finds five valid lines and whose second poll
  finds five more stores ten records and emits no report; the same ten lines found by one
  poll give one report.
\<close>

theorem report_needs_ten_in_one_poll:
  "map_option (\<lambda>(code, st). (code, length (all_messages (db st)), reports st))
     (main ex_lib 1 [Content (ex_lines 5), Content (ex_lines 10)]) = Some (None, 10, 0)
   \<and> map_option (\<lambda>(code, st). (code, length (all_messages (db st)), reports st))
     (main ex_lib 1 [Content (ex_lines 10)]) = Some (None, 10, 1)"
proof -
  let ?st0 = "\<lparr>db = init_db, logged = [], slept = []\<rparr>"
  have e0: "length (all_messages (db ?st0)) = 0" "reports ?st0 = 0"
    "\<forall>m\<in>set (all_messages (db ?st0)). is_finite (m_sentiment m)"
    by (simp_all add: init_db_def reports_def)
  have d1: "drop 0 (ex_lines 5) = ex_lines 5" by simp
  from ex_poll[OF d1 e0(3), of 1] obtain st1 where
    c1: "consume_messages_from_file ex_lib (Content (ex_lines 5)) 1 0 ?st0
           = Some (Returned (length (ex_lines 5)), st1)"
    and m1: "length (all_messages (db st1)) = 5" and r1: "reports st1 = 0"
    and f1: "\<forall>m\<in>set (all_messages (db st1)). is_finite (m_sentiment m)"
    using e0 by auto
  let ?st1 = "st1\<lparr>slept := slept st1 @ [1]\<rparr>"
  have f1': "\<forall>m\<in>set (all_messages (db ?st1)). is_finite (m_sentiment m)"
    using f1 by simp
  have d2: "drop (length (ex_lines 5)) (ex_lines 10) = ex_lines 5"
    using drop_ex_lines[of 5 5] by simp
  from ex_poll[OF d2 f1', of 1] obtain st2 where
    c2: "consume_messages_from_file ex_lib (Content (ex_lines 10)) 1 (length (ex_lines 5)) ?st1
           = Some (Returned (max (length (ex_lines 5)) (length (ex_lines 10))), st2)"
    and m2: "length (all_messages (db st2)) = 10" and r2: "reports st2 = 0"
    using m1 r1 by (auto simp: reports_slept)
  have a: "map_option (\<lambda>(code, st). (code, length (all_messages (db st)), reports st))
     (main ex_lib 1 [Content (ex_lines 5), Content (ex_lines 10)]) = Some (None, 10, 0)"
    unfolding main_def using c1 c2 m2 r2
    by (simp add: final_analytics_effect reports_slept)
  have d3: "drop 0 (ex_lines 10) = ex_lines 10" by simp
  from ex_poll[OF d3 e0(3), of 1] obtain st3 where
    c3: "consume_messages_from_file ex_lib (Content (ex_lines 10)) 1 0 ?st0
           = Some (Returned (length (ex_lines 10)), st3)"
    and m3: "length (all_messages (db st3)) = 10" and r3: "reports st3 = 1"
    using e0 by auto
  have b: "map_option (\<lambda>(code, st). (code, length (all_messages (db st)), reports st))
     (main ex_lib 1 [Content (ex_lines 10)]) = Some (None, 10, 1)"
    unfolding main_def using c3 m3 r3
    by (simp add: final_analytics_effect reports_slept)
  show ?thesis using a b by blast
qed

section \<open>Storage engine: the category summary\<close>

lemma s_category_summary: "s_category (summary L ms c) = c"
  by (simp add: summary_def Let_def)

lemma categories_of_groups:
  "map s_category (category_groups L ms) = sort (remdups (map m_category ms))"
  by (simp add: category_groups_def comp_def s_category_summary)

lemma groups_by_category:
  "sorted_wrt (\<lambda>a b. s_category a < s_category b) (category_groups L ms)"
proof -
  have "sorted (sort (remdups (map m_category ms)))"
    and "distinct (sort (remdups (map m_category ms)))"
    by simp_all
  then have "sorted_wrt (<) (map s_category (category_groups L ms))"
    unfolding categories_of_groups by (simp add: strict_sorted_iff)
  then show ?thesis by (simp add: sorted_wrt_map)
qed

lemma insort_key_second:
  assumes "sorted_wrt (\<lambda>a b. f a < f b \<or> (f a = f b \<and> g a < g b)) ys"
    and "\<forall>y\<in>set ys. g x < g y"
  shows "sorted_wrt (\<lambda>a b. f a < f b \<or> (f a = f b \<and> g a < g b)) (insort_key f x ys)"
  using assms
proof (induction ys)
  case Nil
  then show ?case by simp
next
  case (Cons y ys)
  show ?case
  proof (cases "f x \<le> f y")
    case True
    have "f x < f z \<or> (f x = f z \<and> g x < g z)" if "z \<in> set (y # ys)" for z
    proof -
      have "f y \<le> f z" using that Cons.prems(1) by auto
      with True have "f x \<le> f z" by simp
      moreover have "g x < g z" using that Cons.prems(2) by auto
      ultimately show ?thesis by auto
    qed
    with True Cons.prems(1) show ?thesis by simp
  next
    case False
    have ih: "sorted_wrt (\<lambda>a b. f a < f b \<or> (f a = f b \<and> g a < g b)) (insort_key f x ys)"
      using Cons by simp
    have "f y < f w \<or> (f y = f w \<and> g y < g w)" if "w \<in> set (insort_key f x ys)" for w
      using that False Cons.prems(1) by (auto simp: set_insort_key)
    with False ih show ?thesis by simp
  qed
qed

lemma sort_key_second:
  assumes "sorted_wrt (\<lambda>a b. g a < g b) xs"
  shows "sorted_wrt (\<lambda>a b. f a < f b \<or> (f a = f b \<and> g a < g b)) (sort_key f xs)"
  using assms
proof (induction xs)
  case Nil
  show ?case by simp
next
  case (Cons x xs)
  have "sorted_wrt (\<lambda>a b. f a < f b \<or> (f a = f b \<and> g a < g b)) (sort_key f xs)"
    using Cons by simp
  moreover have "\<forall>y\<in>set (sort_key f xs). g x < g y"
    using Cons.prems by simp
  ultimately show ?case
    using insort_key_second[of f g "sort_key f xs" x] by (simp add: sort_key_def)
qed

lemma analytics_order:
  "sorted_wrt (\<lambda>a b. s_message_count a > s_message_count b
                 \<or> (s_message_count a = s_message_count b \<and> s_category a < s_category b))
     (get_category_analytics L ms)"
  using sort_key_second[OF groups_by_category, of "\<lambda>r. - int (s_message_count r)" L ms]
  by (simp add: get_category_analytics_def)

lemma analytics_rows:
  "distinct (map s_category (get_category_analytics L ms))"
  "set (map s_category (get_category_analytics L ms)) = set (map m_category ms)"
  "\<forall>r\<in>set (get_category_analytics L ms).
     r = summary L ms (s_category r) \<and> s_category r \<in> set (map m_category ms)"
proof -
  have m: "mset (get_category_analytics L ms) = mset (category_groups L ms)"
    by (simp add: get_category_analytics_def)
  then have "mset (map s_category (get_category_analytics L ms)) =
      mset (map s_category (category_groups L ms))"
    by (metis mset_map)
  then have mm: "mset (map s_category (get_category_analytics L ms)) =
      mset (remdups (map m_category ms))"
    by (simp add: categories_of_groups)
  show "distinct (map s_category (get_category_analytics L ms))"
    using mset_eq_imp_distinct_iff[OF mm] by simp
  show "set (map s_category (get_category_analytics L ms)) = set (map m_category ms)"
    using mset_eq_setD[OF mm] by simp
  from mset_eq_setD[OF m]
  have "set (get_category_analytics L ms) = set (category_groups L ms)" .
  then show "\<forall>r\<in>set (get_category_analytics L ms).
     r = summary L ms (s_category r) \<and> s_category r \<in> set (map m_category ms)"
    by (auto simp: category_groups_def s_category_summary)
qed

lemma summary_columns:
  assumes "c \<in> set (map m_category ms)"
  shows "filter (\<lambda>x. m_category x = c) ms \<noteq> []"
    and "s_message_count (summary L ms c) = length (filter (\<lambda>x. m_category x = c) ms)"
    and "s_avg_sentiment (summary L ms c) =
           engine_avg L (map m_sentiment (filter (\<lambda>x. m_category x = c) ms))"
    and "s_unique_authors (summary L ms c) =
           card (m_author ` set (filter (\<lambda>x. m_category x = c) ms))"
    and "s_latest_message (summary L ms c) =
           Some (Max (m_timestamp ` set (filter (\<lambda>x. m_category x = c) ms)))"
proof -
  let ?g = "filter (\<lambda>x. m_category x = c) ms"
  show ne: "?g \<noteq> []" using assms by (auto simp: filter_empty_conv)
  show "s_message_count (summary L ms c) = length ?g" by (simp add: summary_def Let_def)
  show "s_avg_sentiment (summary L ms c) = engine_avg L (map m_sentiment ?g)"
    using ne by (simp add: summary_def Let_def sql_avg_def)
  show "s_unique_authors (summary L ms c) = card (m_author ` set ?g)"
    by (simp add: summary_def Let_def length_remdups_card_conv)
  from ne obtain x xs where g: "?g = x # xs" by (cases ?g) auto
  have "fold max (map m_timestamp xs) (m_timestamp x) = Max (set (m_timestamp x # map m_timestamp xs))"
    by (rule Max.set_eq_fold [symmetric])
  then have "sql_max (map m_timestamp ?g) = Some (Max (set (map m_timestamp ?g)))"
    unfolding g by (simp add: sql_max_def)
  then show "s_latest_message (summary L ms c) = Some (Max (m_timestamp ` set ?g))"
    by (simp add: summary_def Let_def)
qed

lemma ex_scenario_analytics:
  "get_category_analytics ex_lib ex_master_scenario = ex_summary_scenario"
  by (simp add: get_category_analytics_def category_groups_def ex_master_scenario_def
        ex_row_def summary_def sql_avg_def sql_max_def ex_summary_scenario_def ex_lib_def
        ex_avg_def finite_value_def)

text \<open>
  C5. The list the analytics query returns holds exactly one row for each category that
  has a message in the master table, the row giving the category, the number of its
  messages, the engine's average of their sentiments, the number of distinct authors and
  the greatest timestamp. The list is ordered by the number of messages, descending, and
  rows with the same number of messages are in ascending order of their category names,
  compared byte by byte.
\<close>

theorem category_summary_order:
  "distinct (map s_category (get_category_analytics L ms))
   \<and> set (map s_category (get_category_analytics L ms)) = set (map m_category ms)
   \<and> (\<forall>r\<in>set (get_category_analytics L ms).
         let g = filter (\<lambda>x. m_category x = s_category r) ms in
           g \<noteq> []
           \<and> s_message_count r = length g
           \<and> s_avg_sentiment r = engine_avg L (map m_sentiment g)
           \<and> s_unique_authors r = card (m_author ` set g)
           \<and> s_latest_message r = Some (Max (m_timestamp ` set g)))
   \<and> sorted_wrt (\<lambda>a b. s_message_count a > s_message_count b
                    \<or> (s_message_count a = s_message_count b \<and> s_category a < s_category b))
        (get_category_analytics L ms)"
proof (intro conjI)
  show "distinct (map s_category (get_category_analytics L ms))" by (rule analytics_rows(1))
  show "set (map s_category (get_category_analytics L ms)) = set (map m_category ms)"
    by (rule analytics_rows(2))
  show "sorted_wrt (\<lambda>a b. s_message_count a > s_message_count b
                    \<or> (s_message_count a = s_message_count b \<and> s_category a < s_category b))
        (get_category_analytics L ms)"
    by (rule analytics_order)
  show "\<forall>r\<in>set (get_category_analytics L ms).
         let g = filter (\<lambda>x. m_category x = s_category r) ms in
           g \<noteq> []
           \<and> s_message_count r = length g
           \<and> s_avg_sentiment r = engine_avg L (map m_sentiment g)
           \<and> s_unique_authors r = card (m_author ` set g)
           \<and> s_latest_message r = Some (Max (m_timestamp ` set g))"
  proof
    fix x assume "x \<in> set (get_category_analytics L ms)"
    with analytics_rows(3)[of L ms] have e: "x = summary L ms (s_category x)"
      and c: "s_category x \<in> set (map m_category ms)" by auto
    from summary_columns[OF c] e
    show "let g = filter (\<lambda>y. m_category y = s_category x) ms in
           g \<noteq> []
           \<and> s_message_count x = length g
           \<and> s_avg_sentiment x = engine_avg L (map m_sentiment g)
           \<and> s_unique_authors x = card (m_author ` set g)
           \<and> s_latest_message x = Some (Max (m_timestamp ` set g))"
      unfolding Let_def by metis
  qed
qed

theorem category_summary_order_witness:
  "get_category_analytics ex_lib ex_master_scenario = ex_summary_scenario
   \<and> map s_category ex_summary_scenario = [''humor'', ''art'', ''news'']
   \<and> map s_message_count ex_summary_scenario = [2, 1, 1]
   \<and> set (map m_category ex_master_scenario) = {''humor'', ''art'', ''news''}
   \<and> sorted_wrt (\<lambda>a b. s_message_count a > s_message_count b
                    \<or> (s_message_count a = s_message_count b \<and> s_category a < s_category b))
        ex_summary_scenario
   \<and> map s_message_count ex_summary_scenario =
       map (\<lambda>r. length (filter (\<lambda>x. m_category x = s_category r) ex_master_scenario))
         ex_summary_scenario"
proof -
  note t = category_summary_order [of ex_lib ex_master_scenario, unfolded ex_scenario_analytics]
  have c: "map s_category ex_summary_scenario = [''humor'', ''art'', ''news'']"
    "map s_message_count ex_summary_scenario = [2, 1, 1]"
    by (simp_all add: ex_summary_scenario_def)
  from t have "set (map s_category ex_summary_scenario) = set (map m_category ex_master_scenario)"
    by blast
  then have s: "set (map m_category ex_master_scenario) = {''humor'', ''art'', ''news''}"
    unfolding c by auto
  from t have o: "sorted_wrt (\<lambda>a b. s_message_count a > s_message_count b
                    \<or> (s_message_count a = s_message_count b \<and> s_category a < s_category b))
        ex_summary_scenario"
    by blast
  from t have "\<forall>r\<in>set ex_summary_scenario.
         let g = filter (\<lambda>x. m_category x = s_category r) ex_master_scenario in
           g \<noteq> []
           \<and> s_message_count r = length g
           \<and> s_avg_sentiment r = engine_avg ex_lib (map m_sentiment g)
           \<and> s_unique_authors r = card (m_author ` set g)
           \<and> s_latest_message r = Some (Max (m_timestamp ` set g))"
    by blast
  then have "\<forall>r\<in>set ex_summary_scenario.
         s_message_count r =
           length (filter (\<lambda>x. m_category x = s_category r) ex_master_scenario)"
    unfolding Let_def by blast
  then have n: "map s_message_count ex_summary_scenario =
       map (\<lambda>r. length (filter (\<lambda>x. m_category x = s_category r) ex_master_scenario))
         ex_summary_scenario"
    by simp
  show ?thesis using ex_scenario_analytics c s o n by blast
qed

end
